theory Spec2Isabelle
  imports Main
begin

section \<open>Tokens\<close>

text \<open>
  The lexer of \<^verbatim>\<open>src/lexer.go\<close> (package qlparse), embedded function by function.
  \<^verbatim>\<open>TokenType\<close> is the enumeration of the \<^verbatim>\<open>const\<close> block, in declaration order.
\<close>

datatype TokenType =
    TokenNil | TokenEOF | TokenError | TokenText | TokenComment | TokenCommentStart
  | TokenCommentEnd | TokenCommentSingleLine | TokenCommentHash
  | TokenBool | TokenFloat | TokenInteger | TokenString | TokenList | TokenMap
  | TokenStar | TokenEqual | TokenNE | TokenGE | TokenLE | TokenGT | TokenLT
  | TokenLeftParenthesis | TokenRightParenthesis | TokenComma | TokenLogicOr
  | TokenLogicAnd | TokenIN | TokenLike | TokenNegate
  | TokenEOS | TokenUdfExpr | TokenTable | TokenColumn | TokenInsert | TokenInto
  | TokenUpdate | TokenSet | TokenAs | TokenDelete | TokenFrom | TokenSelect | TokenSkip
  | TokenWhere | TokenGroupBy | TokenValues | TokenValue | TokenValueWithSingleQuote
  | TokenKey | TokenTag

record Token =
  T :: TokenType
  V :: string

text \<open>\<^verbatim>\<open>TokenNameMap\<close> and \<^verbatim>\<open>TokenType.String\<close>: kinds without an entry render as
  "not implemented".\<close>

fun TokenNameMap :: "TokenType \<Rightarrow> string option" where
  "TokenNameMap TokenEOF = Some ''EOF''"
| "TokenNameMap TokenError = Some ''Error''"
| "TokenNameMap TokenComment = Some ''Comment''"
| "TokenNameMap TokenCommentStart = Some ''/*''"
| "TokenNameMap TokenCommentEnd = Some ''*/''"
| "TokenNameMap TokenCommentHash = Some ''#''"
| "TokenNameMap TokenCommentSingleLine = Some ''--''"
| "TokenNameMap TokenText = Some ''Text''"
| "TokenNameMap TokenBool = Some ''Bool''"
| "TokenNameMap TokenFloat = Some ''Float''"
| "TokenNameMap TokenInteger = Some ''Integer''"
| "TokenNameMap TokenString = Some ''String''"
| "TokenNameMap TokenList = Some ''List''"
| "TokenNameMap TokenMap = Some ''Map''"
| "TokenNameMap TokenStar = Some ''Star''"
| "TokenNameMap TokenEqual = Some ''Equal''"
| "TokenNameMap TokenNE = Some ''NE''"
| "TokenNameMap TokenGE = Some ''GE''"
| "TokenNameMap TokenLE = Some ''LE''"
| "TokenNameMap TokenGT = Some ''GT''"
| "TokenNameMap TokenLT = Some ''LT''"
| "TokenNameMap TokenLeftParenthesis = Some ''LeftParenthesis''"
| "TokenNameMap TokenRightParenthesis = Some ''RightParenthesis''"
| "TokenNameMap TokenComma = Some ''Comma''"
| "TokenNameMap TokenLogicOr = Some ''Or''"
| "TokenNameMap TokenLogicAnd = Some ''And''"
| "TokenNameMap TokenIN = Some ''IN''"
| "TokenNameMap TokenLike = Some ''LIKE''"
| "TokenNameMap TokenNegate = Some ''NOT''"
| "TokenNameMap TokenUdfExpr = Some ''EXPR''"
| "TokenNameMap TokenEOS = Some ''EndOfStatement''"
| "TokenNameMap TokenTable = Some ''table''"
| "TokenNameMap TokenColumn = Some ''column''"
| "TokenNameMap TokenInsert = Some ''insert''"
| "TokenNameMap TokenInto = Some ''into''"
| "TokenNameMap TokenUpdate = Some ''update''"
| "TokenNameMap TokenSet = Some ''set''"
| "TokenNameMap TokenAs = Some ''as''"
| "TokenNameMap TokenDelete = Some ''delete''"
| "TokenNameMap TokenFrom = Some ''from''"
| "TokenNameMap TokenSelect = Some ''select''"
| "TokenNameMap TokenWhere = Some ''where''"
| "TokenNameMap TokenGroupBy = Some ''group by''"
| "TokenNameMap TokenValues = Some ''values''"
| "TokenNameMap TokenValue = Some ''value''"
| "TokenNameMap TokenValueWithSingleQuote = Some ''valueWithSingleQuote''"
| "TokenNameMap _ = None"

definition TokenType_String :: "TokenType \<Rightarrow> string" where
  "TokenType_String typ = (case TokenNameMap typ of Some s \<Rightarrow> s | None \<Rightarrow> ''not implemented'')"

section \<open>The Go library functions the lexer calls\<close>

text \<open>
  A Go string is a sequence of bytes: \<^typ>\<open>string\<close>, one \<^typ>\<open>char\<close> per byte. A rune
  is an \<^typ>\<open>int\<close>; \<^verbatim>\<open>eof\<close> is the rune \<open>-1\<close>. Go's \<^verbatim>\<open>int\<close> is modelled as \<^typ>\<open>int\<close>:
  positions stay within the length of the input, far from the 64-bit bounds.

  \<^verbatim>\<open>utf8.DecodeRuneInString\<close> follows the standard library: the empty string gives
  \<open>(RuneError, 0)\<close>, a byte below \<open>0x80\<close> gives itself with width 1, a well-formed
  multi-byte sequence gives its code point and length, and anything else gives
  \<open>(RuneError, 1)\<close>.
\<close>

definition eof :: int where
  "eof = -1"

definition RuneError :: int where
  "RuneError = 0xFFFD"

definition byte :: "char \<Rightarrow> nat" where
  "byte c = of_char c"

fun DecodeRuneInString :: "string \<Rightarrow> int \<times> int" where
  "DecodeRuneInString [] = (RuneError, 0)"
| "DecodeRuneInString (c0 # cs) =
    (let s0 = byte c0 in
     if s0 < 0x80 then (int s0, 1)
     else if s0 < 0xC2 \<or> 0xF4 < s0 then (RuneError, 1)
     else
       let sz = (if s0 < 0xE0 then 2 else if s0 < 0xF0 then 3 else (4::nat));
           lo = (if s0 = 0xE0 then 0xA0 else if s0 = 0xF0 then 0x90 else 0x80);
           hi = (if s0 = 0xED then 0x9F else if s0 = 0xF4 then 0x8F else 0xBF)
       in
       if length cs + 1 < sz then (RuneError, 1)
       else
         let s1 = byte (cs ! 0) in
         if s1 < lo \<or> hi < s1 then (RuneError, 1)
         else if sz \<le> 2 then (int ((s0 mod 32) * 64 + s1 mod 64), 2)
         else
           let s2 = byte (cs ! 1) in
           if s2 < 0x80 \<or> 0xBF < s2 then (RuneError, 1)
           else if sz \<le> 3 then
             (int ((s0 mod 16) * 4096 + (s1 mod 64) * 64 + s2 mod 64), 3)
           else
             let s3 = byte (cs ! 2) in
             if s3 < 0x80 \<or> 0xBF < s3 then (RuneError, 1)
             else (int ((s0 mod 8) * 262144 + (s1 mod 64) * 4096
                        + (s2 mod 64) * 64 + s3 mod 64), 4))"

text \<open>
  The Unicode tables behind \<^verbatim>\<open>unicode.IsLetter\<close>, \<^verbatim>\<open>IsDigit\<close>, \<^verbatim>\<open>IsSpace\<close>, \<^verbatim>\<open>ToLower\<close>
  and \<^verbatim>\<open>ToUpper\<close>, and \<^verbatim>\<open>strconv.Quote\<close> (the \<^verbatim>\<open>%q\<close> verb), are not part of the
  repository. They are a parameter of the model: \<open>golib\<close> gives their values on the
  code points from \<open>0x80\<close> on; on ASCII and on negative runes the functions are
  written out as the library computes them. The case tables are taken to return
  code points, as the library's do.
\<close>

record golib =
  libIsLetter :: "int \<Rightarrow> bool"
  libIsDigit :: "int \<Rightarrow> bool"
  libIsSpace :: "int \<Rightarrow> bool"
  libToLower :: "int \<Rightarrow> int"
  libToUpper :: "int \<Rightarrow> int"
  libQuote :: "string \<Rightarrow> string"

definition unicode_IsLetter :: "golib \<Rightarrow> int \<Rightarrow> bool" where
  "unicode_IsLetter U r =
    (if r < 0 then False
     else if r < 0x80 then (65 \<le> r \<and> r \<le> 90) \<or> (97 \<le> r \<and> r \<le> 122)
     else libIsLetter U r)"

definition unicode_IsDigit :: "golib \<Rightarrow> int \<Rightarrow> bool" where
  "unicode_IsDigit U r =
    (if r < 0 then False
     else if r < 0x80 then 48 \<le> r \<and> r \<le> 57
     else libIsDigit U r)"

definition unicode_IsSpace :: "golib \<Rightarrow> int \<Rightarrow> bool" where
  "unicode_IsSpace U r =
    (if r < 0 then False
     else if r < 0x80 then (9 \<le> r \<and> r \<le> 13) \<or> r = 32
     else libIsSpace U r)"

definition unicode_ToLower :: "golib \<Rightarrow> int \<Rightarrow> int" where
  "unicode_ToLower U r =
    (if r < 0x80 then (if 65 \<le> r \<and> r \<le> 90 then r + 32 else r)
     else libToLower U r)"

definition unicode_ToUpper :: "golib \<Rightarrow> int \<Rightarrow> int" where
  "unicode_ToUpper U r =
    (if r < 0x80 then (if 97 \<le> r \<and> r \<le> 122 then r - 32 else r)
     else libToUpper U r)"

text \<open>A non-empty string decodes to a rune that is not negative, of width 1 at least.\<close>

lemma DecodeRuneInString_width_pos: "s \<noteq> [] \<Longrightarrow> 1 \<le> snd (DecodeRuneInString s)"
  by (cases s) (simp_all add: Let_def)

lemma DecodeRuneInString_nonneg: "0 \<le> fst (DecodeRuneInString s)"
  by (cases s) (simp_all add: Let_def RuneError_def)

text \<open>\<^verbatim>\<open>for _, r := range s\<close>: the runes of a string, decoded one after the other.\<close>

function runes :: "string \<Rightarrow> int list" where
  "runes s =
    (if s = [] then []
     else (let (r, w) = DecodeRuneInString s in r # runes (drop (nat w) s)))"
  by pat_completeness auto
termination
proof (relation "measure length")
  show "wf (measure length)" by simp
next
  fix s :: string and x :: "int \<times> int" and r w :: int
  assume ne: "s \<noteq> []" and x: "x = DecodeRuneInString s" and rw: "(r, w) = x"
  have "1 \<le> snd (DecodeRuneInString s)"
    using ne by (rule DecodeRuneInString_width_pos)
  then have "1 \<le> w" using x rw by (metis snd_conv)
  then show "(drop (nat w) s, s) \<in> measure length"
    using ne by (cases s) auto
qed

text \<open>
  \<^verbatim>\<open>strings.ToUpper\<close> and \<^verbatim>\<open>strings.ToLower\<close> map every rune of a string through the
  case tables. The lexer only compares their results with constants; two strings are
  equal when their rune sequences are, so the model keeps the rune sequences.
  A word built by \<^verbatim>\<open>word + string(r)\<close> is kept as the list of its runes too.
\<close>

definition strings_ToUpper :: "golib \<Rightarrow> int list \<Rightarrow> int list" where
  "strings_ToUpper U w = map (unicode_ToUpper U) w"

definition strings_ToLower :: "golib \<Rightarrow> int list \<Rightarrow> int list" where
  "strings_ToLower U w = map (unicode_ToLower U) w"

text \<open>\<^verbatim>\<open>strings.IndexRune(valid, r) >= 0\<close>: \<open>r\<close> is one of the runes of \<open>valid\<close>
  (never so for \<^verbatim>\<open>eof\<close>).\<close>

definition IndexRune_found :: "string \<Rightarrow> int \<Rightarrow> bool" where
  "IndexRune_found valid r = (r \<in> set (runes valid))"

text \<open>\<^verbatim>\<open>strings.HasPrefix\<close>.\<close>

definition HasPrefix :: "string \<Rightarrow> string \<Rightarrow> bool" where
  "HasPrefix s p = (take (length p) s = p)"

section \<open>Faults\<close>

text \<open>
  What stops a call from returning normally: a slice or an index out of range (a Go
  run-time panic), the explicit \<^verbatim>\<open>panic\<close> of \<^verbatim>\<open>lexMultilineCmt\<close>, a call of a nil
  \<^verbatim>\<open>StateFn\<close>, and a send on the token channel while it is full. The channel has
  capacity 1 and its only receiver is the caller of \<^verbatim>\<open>NextToken\<close>, on the same
  goroutine, so such a send never completes.
\<close>

datatype fault =
  SliceOutOfRange | IndexOutOfRange | UnexpectedEOFInComment | SendBlocked | NilStateFn

definition bindE :: "fault + 'a \<Rightarrow> ('a \<Rightarrow> fault + 'b) \<Rightarrow> fault + 'b" where
  "bindE m f = (case m of Inl e \<Rightarrow> Inl e | Inr x \<Rightarrow> f x)"

text \<open>\<^verbatim>\<open>s[a:b]\<close>, \<^verbatim>\<open>s[a:]\<close> and \<^verbatim>\<open>s[i]\<close> with Go's bounds checks.\<close>

definition slice :: "string \<Rightarrow> int \<Rightarrow> int \<Rightarrow> fault + string" where
  "slice s a b =
    (if 0 \<le> a \<and> a \<le> b \<and> b \<le> int (length s)
     then Inr (take (nat (b - a)) (drop (nat a) s)) else Inl SliceOutOfRange)"

definition slice_from :: "string \<Rightarrow> int \<Rightarrow> fault + string" where
  "slice_from s a =
    (if 0 \<le> a \<and> a \<le> int (length s) then Inr (drop (nat a) s) else Inl SliceOutOfRange)"

definition index :: "string \<Rightarrow> int \<Rightarrow> fault + char" where
  "index s i =
    (if 0 \<le> i \<and> i < int (length s) then Inr (s ! nat i) else Inl IndexOutOfRange)"

section \<open>The lexer state\<close>

text \<open>
  A \<^verbatim>\<open>StateFn\<close> is a Go function value; the model names each state function of the
  file. \<^verbatim>\<open>makeStateFnKeyword\<close> builds a closure over its two arguments. A nil
  \<^verbatim>\<open>StateFn\<close> is \<open>None\<close>.
\<close>

datatype StateFn =
    LexStatement | LexValue | LexExpressionOrIdentity | LexExpression
  | LexSqlFromTable | LexSqlEndOfStatement | LexSqlWhere | LexSqlWhereColumn
  | LexSqlWhereCommaOrLogicOrNext | LexSqlWhereColumnExpr | LexGroupBy
  | LexSqlGroupByColumns | LexColumnOrComma | LexNumber
  | StateFnKeyword TokenType StateFn

type_synonym NamedStateFn = "string \<times> StateFn"

text \<open>
  The fields of \<^verbatim>\<open>Lexer\<close> that the code reads. \<open>tokens\<close> is the channel of capacity 1:
  \<open>None\<close> when it is empty, \<open>Some t\<close> when it holds \<open>t\<close>. (\<^verbatim>\<open>emitter\<close> and \<^verbatim>\<open>dialect\<close>
  are stored and never read.)
\<close>

record Lexer =
  input :: string
  state :: "StateFn option"
  pos :: int
  start :: int
  width :: int
  tokens :: "Token option"
  doubleDelim :: bool
  stack :: "NamedStateFn list"

definition NewLexer :: "string \<Rightarrow> Lexer" where
  "NewLexer inp =
    \<lparr>input = inp, state = Some LexStatement, pos = 0, start = 0, width = 0,
     tokens = None, doubleDelim = False, stack = []\<rparr>"

section \<open>The cursor\<close>

definition Lexer_push :: "string \<Rightarrow> StateFn \<Rightarrow> Lexer \<Rightarrow> Lexer" where
  "Lexer_push name st l = l\<lparr>stack := stack l @ [(name, st)]\<rparr>"

definition Lexer_next :: "Lexer \<Rightarrow> fault + int \<times> Lexer" where
  "Lexer_next l =
    (if pos l \<ge> int (length (input l)) then Inr (eof, l\<lparr>width := 0\<rparr>)
     else bindE (slice_from (input l) (pos l)) (\<lambda>s.
       let (r, w) = DecodeRuneInString s in
       Inr (r, l\<lparr>width := w, pos := pos l + w\<rparr>)))"

definition Lexer_backup :: "Lexer \<Rightarrow> Lexer" where
  "Lexer_backup l = l\<lparr>pos := pos l - width l\<rparr>"

definition Lexer_peek :: "Lexer \<Rightarrow> fault + int \<times> Lexer" where
  "Lexer_peek l = bindE (Lexer_next l) (\<lambda>(r, l1). Inr (r, Lexer_backup l1))"

fun Lexer_skipX :: "nat \<Rightarrow> Lexer \<Rightarrow> fault + Lexer" where
  "Lexer_skipX 0 l = Inr l"
| "Lexer_skipX (Suc ct) l = bindE (Lexer_next l) (\<lambda>(r, l1). Lexer_skipX ct l1)"

definition Lexer_peekX :: "int \<Rightarrow> Lexer \<Rightarrow> fault + string" where
  "Lexer_peekX x l =
    (if pos l + x > int (length (input l)) then slice_from (input l) (pos l)
     else slice (input l) (pos l) (pos l + x))"

definition Lexer_isEnd :: "Lexer \<Rightarrow> bool" where
  "Lexer_isEnd l = (pos l \<ge> int (length (input l)))"

text \<open>\<^verbatim>\<open>emit\<close>: the slice is taken first, then the token is sent, then \<open>start\<close> moves.\<close>

definition Lexer_emit :: "TokenType \<Rightarrow> Lexer \<Rightarrow> fault + Lexer" where
  "Lexer_emit t l =
    bindE (slice (input l) (start l) (pos l)) (\<lambda>s.
      case tokens l of
        Some held \<Rightarrow> Inl SendBlocked
      | None \<Rightarrow> Inr (l\<lparr>tokens := Some \<lparr>T = t, V = s\<rparr>, start := pos l\<rparr>))"

definition Lexer_ignore :: "Lexer \<Rightarrow> Lexer" where
  "Lexer_ignore l = l\<lparr>start := pos l\<rparr>"

definition Lexer_accept :: "string \<Rightarrow> Lexer \<Rightarrow> fault + bool \<times> Lexer" where
  "Lexer_accept valid l =
    bindE (Lexer_next l) (\<lambda>(r, l1).
      if IndexRune_found valid r then Inr (True, l1) else Inr (False, Lexer_backup l1))"

definition Lexer_current :: "Lexer \<Rightarrow> fault + string \<times> Lexer" where
  "Lexer_current l =
    bindE (slice (input l) (start l) (pos l)) (\<lambda>s. Inr (s, l\<lparr>start := pos l\<rparr>))"

definition Lexer_consumeWord :: "string \<Rightarrow> Lexer \<Rightarrow> Lexer" where
  "Lexer_consumeWord word l = l\<lparr>pos := pos l + int (length word)\<rparr>"

text \<open>\<^verbatim>\<open>errorf\<close> sends an error token carrying the formatted message and returns nil;
  \<^verbatim>\<open>errorToken\<close> ignores its arguments and emits the current lexeme as an error
  token.\<close>

definition Lexer_errorf :: "string \<Rightarrow> Lexer \<Rightarrow> fault + StateFn option \<times> Lexer" where
  "Lexer_errorf msg l =
    (case tokens l of
       Some held \<Rightarrow> Inl SendBlocked
     | None \<Rightarrow> Inr (None, l\<lparr>tokens := Some \<lparr>T = TokenError, V = msg\<rparr>\<rparr>))"

definition Lexer_errorToken :: "Lexer \<Rightarrow> fault + StateFn option \<times> Lexer" where
  "Lexer_errorToken l = bindE (Lexer_emit TokenError l) (\<lambda>l1. Inr (None, l1))"

definition Lexer_pop :: "Lexer \<Rightarrow> fault + StateFn option \<times> Lexer" where
  "Lexer_pop l =
    (if length (stack l) = 0 then Lexer_errorf ''BUG in lexer: no states to pop.'' l
     else Inr (Some (snd (last (stack l))), l\<lparr>stack := butlast (stack l)\<rparr>))"

section \<open>Character classes\<close>

definition isAlNum :: "golib \<Rightarrow> int \<Rightarrow> bool" where
  "isAlNum U r = (r = 95 \<or> unicode_IsLetter U r \<or> unicode_IsDigit U r)"

definition isAlpha :: "golib \<Rightarrow> int \<Rightarrow> bool" where
  "isAlpha U r = (r = 95 \<or> unicode_IsLetter U r \<or> r = 46)"

definition isAlNumOrPeriod :: "golib \<Rightarrow> int \<Rightarrow> bool" where
  "isAlNumOrPeriod U r = (r = 95 \<or> unicode_IsLetter U r \<or> unicode_IsDigit U r \<or> r = 46)"

definition isDigit :: "int \<Rightarrow> bool" where
  "isDigit r = (r \<ge> 48 \<and> r \<le> 57)"

definition isWhiteSpace :: "int \<Rightarrow> bool" where
  "isWhiteSpace r = (r = 13 \<or> r = 10 \<or> r = 9 \<or> r = 32)"

definition IDENTITY_CHARS :: string where
  "IDENTITY_CHARS = ''_.''"

definition IDENTITY_LAX_CHARS :: string where
  "IDENTITY_LAX_CHARS = ''_./ ''"

definition isIdentifierRune :: "golib \<Rightarrow> int \<Rightarrow> bool" where
  "isIdentifierRune U r =
    (if unicode_IsLetter U r \<or> unicode_IsDigit U r then True
     else r \<in> set (runes IDENTITY_CHARS))"

definition isLaxIdentifierRune :: "golib \<Rightarrow> int \<Rightarrow> bool" where
  "isLaxIdentifierRune U r =
    (if unicode_IsLetter U r \<or> unicode_IsDigit U r then True
     else r \<in> set (runes IDENTITY_LAX_CHARS))"

section \<open>Basic facts about the cursor\<close>

lemma runes_nonneg: "r \<in> set (runes s) \<Longrightarrow> 0 \<le> r"
proof (induction s rule: runes.induct)
  case (1 s)
  show ?case
  proof (cases "s = []")
    case True
    with "1.prems" show ?thesis by simp
  next
    case False
    obtain r0 w where d: "DecodeRuneInString s = (r0, w)"
      by (cases "DecodeRuneInString s")
    have r0: "0 \<le> r0"
      using DecodeRuneInString_nonneg [of s] d by simp
    from "1.prems" False d have "r = r0 \<or> r \<in> set (runes (drop (nat w) s))"
      by (subst (asm) runes.simps) simp
    then show ?thesis
      using r0 "1.IH" [OF False d [symmetric] refl] by blast
  qed
qed

lemma bindE_cong [fundef_cong]:
  "m = m' \<Longrightarrow> (\<And>x. m' = Inr x \<Longrightarrow> f x = f' x) \<Longrightarrow> bindE m f = bindE m' f'"
  by (cases m') (simp_all add: bindE_def)

lemma bindE_Inr [simp]: "bindE (Inr x) f = f x"
  by (simp add: bindE_def)

lemma bindE_Inl [simp]: "bindE (Inl e) f = Inl e"
  by (simp add: bindE_def)

text \<open>A read that does not return \<^verbatim>\<open>eof\<close> moves the position forward, within the
  same input: the measure of every scanning loop.\<close>

definition remaining :: "Lexer \<Rightarrow> nat" where
  "remaining l = nat (int (length (input l)) - pos l)"

lemma Lexer_next_input: "Lexer_next l = Inr (r, l1) \<Longrightarrow> input l1 = input l"
  by (auto simp: Lexer_next_def slice_from_def Let_def split: if_splits prod.splits)

lemma Lexer_next_remaining:
  assumes "Lexer_next l = Inr (r, l1)" and "r \<noteq> eof"
  shows "remaining l1 < remaining l"
proof -
  from assms have lt: "pos l < int (length (input l))" and nn: "0 \<le> pos l"
    by (auto simp: Lexer_next_def slice_from_def split: if_splits)
  let ?s = "drop (nat (pos l)) (input l)"
  from lt nn have ne: "?s \<noteq> []" by simp
  from assms lt nn have l1: "l1 = l\<lparr>width := snd (DecodeRuneInString ?s),
      pos := pos l + snd (DecodeRuneInString ?s)\<rparr>"
    by (auto simp: Lexer_next_def slice_from_def Let_def split: prod.splits)
  from DecodeRuneInString_width_pos [OF ne] lt show ?thesis
    by (simp add: remaining_def l1)
qed

section \<open>Scanning helpers\<close>

function skipWhiteSpaces_loop :: "golib \<Rightarrow> Lexer \<Rightarrow> fault + Lexer" where
  "skipWhiteSpaces_loop U l =
    bindE (Lexer_next l) (\<lambda>(rune, l1).
      if unicode_IsSpace U rune then skipWhiteSpaces_loop U l1 else Inr l1)"
  by pat_completeness auto
termination
proof (relation "measure (\<lambda>(U, l). remaining l)")
  show "wf (measure (\<lambda>(U :: golib, l). remaining l))" by simp
next
  fix U :: golib and l l1 :: Lexer and x rune
  assume "Lexer_next l = Inr x" "(rune, l1) = x" "unicode_IsSpace U rune"
  then have "Lexer_next l = Inr (rune, l1)" "rune \<noteq> eof"
    by (auto simp: unicode_IsSpace_def eof_def)
  then show "((U, l1), (U, l)) \<in> measure (\<lambda>(U, l). remaining l)"
    by (simp add: Lexer_next_remaining)
qed

definition Lexer_skipWhiteSpaces :: "golib \<Rightarrow> Lexer \<Rightarrow> fault + Lexer" where
  "Lexer_skipWhiteSpaces U l =
    bindE (skipWhiteSpaces_loop U l) (\<lambda>l1. Inr (Lexer_ignore (Lexer_backup l1)))"

function acceptRun_loop :: "string \<Rightarrow> Lexer \<Rightarrow> fault + Lexer" where
  "acceptRun_loop valid l =
    bindE (Lexer_next l) (\<lambda>(r, l1).
      if IndexRune_found valid r then acceptRun_loop valid l1 else Inr l1)"
  by pat_completeness auto
termination
proof (relation "measure (\<lambda>(valid, l). remaining l)")
  show "wf (measure (\<lambda>(valid :: string, l). remaining l))" by simp
next
  fix valid :: string and l l1 :: Lexer and x r
  assume "Lexer_next l = Inr x" "(r, l1) = x" "IndexRune_found valid r"
  then have "Lexer_next l = Inr (r, l1)" "r \<noteq> eof"
    using runes_nonneg [of r valid] by (auto simp: IndexRune_found_def eof_def)
  then show "((valid, l1), (valid, l)) \<in> measure (\<lambda>(valid, l). remaining l)"
    by (simp add: Lexer_next_remaining)
qed

definition Lexer_acceptRun :: "string \<Rightarrow> Lexer \<Rightarrow> fault + bool \<times> Lexer" where
  "Lexer_acceptRun valid l =
    bindE (acceptRun_loop valid l) (\<lambda>l1.
      let l2 = Lexer_backup l1 in Inr (pos l2 > pos l, l2))"

text \<open>\<^verbatim>\<open>peekWord\<close> steps through the rest of the input one byte at a time (\<^verbatim>\<open>i++\<close>) and
  decodes a rune at each offset.\<close>

fun peekWord_loop :: "golib \<Rightarrow> int list \<Rightarrow> string \<Rightarrow> int list" where
  "peekWord_loop U word [] = word"
| "peekWord_loop U word (c # cs) =
    (let (r, w) = DecodeRuneInString (c # cs) in
     if unicode_IsSpace U r \<or> \<not> isAlNumOrPeriod U r then word
     else peekWord_loop U (word @ [r]) cs)"

definition Lexer_peekWord :: "golib \<Rightarrow> Lexer \<Rightarrow> fault + int list" where
  "Lexer_peekWord U l =
    (if 0 < int (length (input l)) - pos l
     then bindE (slice_from (input l) (pos l)) (\<lambda>s. Inr (peekWord_loop U [] s))
     else Inr [])"

text \<open>\<^verbatim>\<open>match\<close>: the loop over the runes of \<open>matchTo\<close>; its flag says whether the loop
  ran to its end.\<close>

fun match_loop :: "golib \<Rightarrow> int list \<Rightarrow> int \<Rightarrow> Lexer \<Rightarrow> fault + bool \<times> Lexer" where
  "match_loop U [] skip l = Inr (True, l)"
| "match_loop U (matchRune # rest) skip l =
    (if skip > 0 then match_loop U rest (skip - 1) l
     else bindE (Lexer_next l) (\<lambda>(nr, l1).
       if matchRune \<noteq> nr \<and> unicode_ToLower U nr \<noteq> matchRune then Inr (False, l1)
       else match_loop U rest skip l1))"

definition Lexer_match :: "golib \<Rightarrow> string \<Rightarrow> int \<Rightarrow> Lexer \<Rightarrow> fault + bool \<times> Lexer" where
  "Lexer_match U matchTo skip l =
    bindE (match_loop U (runes matchTo) skip l) (\<lambda>(done, l1).
      if \<not> done then Inr (False, l1)
      else bindE (Lexer_peek l1) (\<lambda>(r, l2).
        if \<not> isWhiteSpace r then Inr (False, l2) else Inr (True, l2)))"

text \<open>\<^verbatim>\<open>tryMatch\<close>: \<open>i\<close> counts the runes read before this one; on a mismatch the code
  calls \<^verbatim>\<open>backup\<close> once for every rune read, this one included.\<close>

fun tryMatch_loop :: "golib \<Rightarrow> int list \<Rightarrow> nat \<Rightarrow> Lexer \<Rightarrow> fault + bool \<times> Lexer" where
  "tryMatch_loop U [] i l = Inr (True, l)"
| "tryMatch_loop U (matchRune # rest) i l =
    bindE (Lexer_next l) (\<lambda>(nextRune, l1).
      if unicode_ToLower U nextRune \<noteq> matchRune
      then Inr (False, (Lexer_backup ^^ (Suc i)) l1)
      else tryMatch_loop U rest (Suc i) l1)"

definition Lexer_tryMatch :: "golib \<Rightarrow> string \<Rightarrow> Lexer \<Rightarrow> fault + bool \<times> Lexer" where
  "Lexer_tryMatch U matchTo l = tryMatch_loop U (runes matchTo) 0 l"

fun isExpr_loop :: "golib \<Rightarrow> nat \<Rightarrow> string \<Rightarrow> bool" where
  "isExpr_loop U i [] = False"
| "isExpr_loop U i (c # cs) =
    (let (r, w) = DecodeRuneInString (c # cs) in
     if r = 40 \<and> i > 0 then True
     else if unicode_IsSpace U r then False
     else if \<not> isAlNumOrPeriod U r then False
     else isExpr_loop U (Suc i) cs)"

definition Lexer_isExpr :: "golib \<Rightarrow> Lexer \<Rightarrow> fault + bool \<times> Lexer" where
  "Lexer_isExpr U l =
    bindE (Lexer_peek l) (\<lambda>(r, l1).
      if r = 39 then Inr (False, l1)
      else if isDigit r then Inr (False, l1)
      else if 0 < int (length (input l1)) - pos l1
      then bindE (slice_from (input l1) (pos l1)) (\<lambda>s. Inr (isExpr_loop U 0 s, l1))
      else Inr (False, l1))"

definition Lexer_isNextKeyword :: "golib \<Rightarrow> Lexer \<Rightarrow> fault + bool" where
  "Lexer_isNextKeyword U l =
    bindE (Lexer_peekWord U l) (\<lambda>word. Inr (strings_ToUpper U word = runes ''FROM''))"

definition Lexer_isIdentity :: "golib \<Rightarrow> Lexer \<Rightarrow> fault + bool \<times> Lexer" where
  "Lexer_isIdentity U l =
    bindE (Lexer_peek l) (\<lambda>(r, l1).
      if r = 39 then Inr (False, l1)
      else if isDigit r then Inr (False, l1)
      else if isAlpha U r then Inr (True, l1)
      else Inr (False, l1))"

text \<open>\<^verbatim>\<open>lexMatch\<close>. The debug line evaluates \<^verbatim>\<open>l.peekWord()\<close> first. On a mismatch the
  argument \<^verbatim>\<open>l.current()\<close> is evaluated, which moves \<open>start\<close>, before \<^verbatim>\<open>errorToken\<close>
  emits.\<close>

definition Lexer_lexMatch ::
  "golib \<Rightarrow> TokenType \<Rightarrow> int \<Rightarrow> StateFn option \<Rightarrow> Lexer \<Rightarrow> fault + StateFn option \<times> Lexer" where
  "Lexer_lexMatch U typ skip fn l =
    bindE (Lexer_peekWord U l) (\<lambda>logged.
    bindE (Lexer_match U (TokenType_String typ) skip l) (\<lambda>(ok, l1).
      if ok then bindE (Lexer_emit typ l1) (\<lambda>l2. Inr (fn, l2))
      else bindE (Lexer_current l1) (\<lambda>(cur, l2). Lexer_errorToken l2)))"

definition Lexer_lexIfElseMatch ::
  "golib \<Rightarrow> TokenType \<Rightarrow> StateFn option \<Rightarrow> StateFn option \<Rightarrow> Lexer
    \<Rightarrow> fault + StateFn option \<times> Lexer" where
  "Lexer_lexIfElseMatch U typ matchState noMatchState l =
    bindE (Lexer_skipWhiteSpaces U l) (\<lambda>l1.
    bindE (Lexer_tryMatch U (TokenType_String typ) l1) (\<lambda>(ok, l2).
      if ok then bindE (Lexer_emit typ l2) (\<lambda>l3. Inr (matchState, l3))
      else Inr (noMatchState, l2)))"


section \<open>Values\<close>

text \<open>
  The two loops of \<^verbatim>\<open>lexValue\<close> have no exit at \<^verbatim>\<open>eof\<close> of their own, so they are
  partial functions: \<open>None\<close> is a loop that never returns. In the quoted loop \<open>rune\<close>
  is the rune read last and \<open>typ\<close> the kind chosen so far; a quote (39 or 34) is
  followed by one more read unless the input has ended.
\<close>

partial_function (option) lexValue_quoted ::
  "TokenType \<Rightarrow> int \<Rightarrow> Lexer \<Rightarrow> (fault + StateFn option \<times> Lexer) option" where
  "lexValue_quoted typ rune l =
    (if rune = 39 \<or> rune = 34 then
       (if \<not> Lexer_isEnd l then
          (case Lexer_next l of
             Inl e \<Rightarrow> Some (Inl e)
           | Inr (rune2, l1) \<Rightarrow>
               if rune2 = 39 \<or> rune2 = 34 then
                 (if rune2 = 0 then Some (Lexer_errorToken l1)
                  else (case Lexer_next l1 of
                          Inl e \<Rightarrow> Some (Inl e)
                        | Inr (rune3, l2) \<Rightarrow> lexValue_quoted TokenValueWithSingleQuote rune3 l2))
               else
                 Some (bindE (Lexer_emit typ (Lexer_backup (Lexer_backup l1))) (\<lambda>l2.
                       bindE (Lexer_next l2) (\<lambda>(r, l3). Inr (None, Lexer_ignore l3)))))
        else
          Some (bindE (Lexer_emit typ (Lexer_backup l)) (\<lambda>l1.
                bindE (Lexer_next l1) (\<lambda>(r, l2). Inr (None, l2)))))
     else if rune = 0 then Some (Lexer_errorToken l)
     else (case Lexer_next l of
             Inl e \<Rightarrow> Some (Inl e)
           | Inr (rune1, l1) \<Rightarrow> lexValue_quoted typ rune1 l1))"

partial_function (option) lexValue_unquoted :: "Lexer \<Rightarrow> (fault + Lexer) option" where
  "lexValue_unquoted l =
    (case Lexer_next l of
       Inl e \<Rightarrow> Some (Inl e)
     | Inr (rune, l1) \<Rightarrow>
         if \<not> isWhiteSpace rune \<and> rune \<noteq> 44 \<and> rune \<noteq> 41 then lexValue_unquoted l1
         else Some (Inr l1))"

declare lexValue_quoted.simps [code]
declare lexValue_unquoted.simps [code]

definition Lexer_lexValue :: "golib \<Rightarrow> Lexer \<Rightarrow> (fault + StateFn option \<times> Lexer) option" where
  "Lexer_lexValue U l =
    (case Lexer_skipWhiteSpaces U l of
       Inl e \<Rightarrow> Some (Inl e)
     | Inr l1 \<Rightarrow>
         if Lexer_isEnd l1 then Some (Lexer_errorToken l1)
         else
           (case Lexer_next l1 of
              Inl e \<Rightarrow> Some (Inl e)
            | Inr (rune, l2) \<Rightarrow>
                if rune = 41 then Some (Inr (None, l2))
                else if rune = 39 \<or> rune = 34 then
                  (case Lexer_next (Lexer_ignore l2) of
                     Inl e \<Rightarrow> Some (Inl e)
                   | Inr (rune1, l3) \<Rightarrow> lexValue_quoted TokenValue rune1 l3)
                else
                  (case lexValue_unquoted l2 of
                     None \<Rightarrow> None
                   | Some (Inl e) \<Rightarrow> Some (Inl e)
                   | Some (Inr l3) \<Rightarrow>
                       Some (bindE (Lexer_emit TokenValue (Lexer_backup l3)) (\<lambda>l4.
                             Inr (None, l4))))))"

text \<open>The state function \<^verbatim>\<open>lexValue\<close> calls the method and returns nil whatever it
  returned.\<close>

definition lexValue :: "golib \<Rightarrow> Lexer \<Rightarrow> (fault + StateFn option \<times> Lexer) option" where
  "lexValue U l =
    (case Lexer_lexValue U l of
       None \<Rightarrow> None
     | Some (Inl e) \<Rightarrow> Some (Inl e)
     | Some (Inr (st, l1)) \<Rightarrow> Some (Inr (None, l1)))"

section \<open>Identifiers\<close>

function identifier_loop :: "golib \<Rightarrow> Lexer \<Rightarrow> fault + Lexer" where
  "identifier_loop U l =
    bindE (Lexer_next l) (\<lambda>(rune, l1).
      if isIdentifierRune U rune then identifier_loop U l1 else Inr l1)"
  by pat_completeness auto
termination
proof (relation "measure (\<lambda>(U, l). remaining l)")
  show "wf (measure (\<lambda>(U :: golib, l). remaining l))" by simp
next
  fix U :: golib and l l1 :: Lexer and x rune
  assume "Lexer_next l = Inr x" "(rune, l1) = x" "isIdentifierRune U rune"
  then have "Lexer_next l = Inr (rune, l1)" "rune \<noteq> eof"
    using runes_nonneg [of rune IDENTITY_CHARS]
    by (auto simp: isIdentifierRune_def unicode_IsLetter_def unicode_IsDigit_def eof_def
             split: if_splits)
  then show "((U, l1), (U, l)) \<in> measure (\<lambda>(U, l). remaining l)"
    by (simp add: Lexer_next_remaining)
qed

text \<open>The loop of the quoted forms also hands back the rune that ended it
  (\<^verbatim>\<open>nextChar\<close>).\<close>

function laxIdentifier_loop :: "golib \<Rightarrow> Lexer \<Rightarrow> fault + int \<times> Lexer" where
  "laxIdentifier_loop U l =
    bindE (Lexer_next l) (\<lambda>(nextChar, l1).
      if isLaxIdentifierRune U nextChar then laxIdentifier_loop U l1 else Inr (nextChar, l1))"
  by pat_completeness auto
termination
proof (relation "measure (\<lambda>(U, l). remaining l)")
  show "wf (measure (\<lambda>(U :: golib, l). remaining l))" by simp
next
  fix U :: golib and l l1 :: Lexer and x nextChar
  assume "Lexer_next l = Inr x" "(nextChar, l1) = x" "isLaxIdentifierRune U nextChar"
  then have "Lexer_next l = Inr (nextChar, l1)" "nextChar \<noteq> eof"
    using runes_nonneg [of nextChar IDENTITY_LAX_CHARS]
    by (auto simp: isLaxIdentifierRune_def unicode_IsLetter_def unicode_IsDigit_def eof_def
             split: if_splits)
  then show "((U, l1), (U, l)) \<in> measure (\<lambda>(U, l). remaining l)"
    by (simp add: Lexer_next_remaining)
qed

definition lexExpressionIdentifier ::
  "golib \<Rightarrow> StateFn option \<Rightarrow> Lexer \<Rightarrow> fault + StateFn option \<times> Lexer" where
  "lexExpressionIdentifier U nextFn l =
    bindE (Lexer_skipWhiteSpaces U l) (\<lambda>l1.
    bindE (Lexer_next l1) (\<lambda>(firstChar, l2).
      if \<not> unicode_IsLetter U firstChar then
        bindE (slice (input l2) (start l2) (pos l2)) (\<lambda>shown. Lexer_errorToken l2)
      else
        bindE (identifier_loop U l2) (\<lambda>l3.
        bindE (Lexer_emit TokenUdfExpr (Lexer_backup l3)) (\<lambda>l4. Inr (nextFn, l4)))))"

definition Lexer_lexIdentifier ::
  "golib \<Rightarrow> TokenType \<Rightarrow> StateFn option \<Rightarrow> Lexer \<Rightarrow> fault + StateFn option \<times> Lexer" where
  "Lexer_lexIdentifier U typ nextFn l =
    bindE (Lexer_skipWhiteSpaces U l) (\<lambda>l1.
    bindE (Lexer_next l1) (\<lambda>(firstChar, l2).
      if firstChar = 91 \<or> firstChar = 39 then
        bindE (Lexer_next (Lexer_ignore l2)) (\<lambda>(nextChar, l3).
          if \<not> unicode_IsLetter U nextChar then
            bindE (slice (input l3) (start l3) (pos l3)) (\<lambda>shown. Lexer_errorToken l3)
          else
            bindE (laxIdentifier_loop U l3) (\<lambda>(nextChar, l4).
              if (firstChar = 91 \<and> nextChar = 93) \<or> (firstChar = 39 \<and> nextChar = 39) then
                bindE (Lexer_emit typ (Lexer_backup l4)) (\<lambda>l5.
                bindE (Lexer_next l5) (\<lambda>(r, l6). Inr (nextFn, Lexer_ignore l6)))
              else Lexer_errorToken l4))
      else if \<not> unicode_IsLetter U firstChar then
        bindE (slice (input l2) (start l2) (pos l2)) (\<lambda>shown. Lexer_errorToken l2)
      else
        bindE (identifier_loop U l2) (\<lambda>l3.
        bindE (Lexer_emit typ (Lexer_backup l3)) (\<lambda>l4. Inr (nextFn, l4)))))"

section \<open>Comments\<close>

function lexMultilineCmt_loop :: "Lexer \<Rightarrow> fault + Lexer" where
  "lexMultilineCmt_loop l =
    bindE (slice_from (input l) (pos l)) (\<lambda>s.
      if HasPrefix s ''*/'' then Inr l
      else bindE (Lexer_next l) (\<lambda>(r, l1).
        if eof = r then Inl UnexpectedEOFInComment else lexMultilineCmt_loop l1))"
  by pat_completeness auto
termination
proof (relation "measure remaining")
  show "wf (measure remaining)" by simp
next
  fix l l1 :: Lexer and s x r
  assume "Lexer_next l = Inr x" "(r, l1) = x" "eof \<noteq> r"
  then have "Lexer_next l = Inr (r, l1)" "r \<noteq> eof" by auto
  then show "(l1, l) \<in> measure remaining"
    by (simp add: Lexer_next_remaining)
qed

definition lexMultilineCmt :: "StateFn option \<Rightarrow> Lexer \<Rightarrow> fault + StateFn option \<times> Lexer" where
  "lexMultilineCmt nextFn l =
    bindE (Lexer_next l) (\<lambda>(r1, l1).
    bindE (Lexer_next l1) (\<lambda>(r2, l2).
    bindE (lexMultilineCmt_loop l2) (\<lambda>l3.
    bindE (Lexer_next l3) (\<lambda>(r3, l4).
    bindE (Lexer_next l4) (\<lambda>(r4, l5).
    bindE (Lexer_emit TokenComment l5) (\<lambda>l6. Inr (nextFn, l6)))))))"

function lexSingleLineCmt_loop :: "Lexer \<Rightarrow> fault + Lexer" where
  "lexSingleLineCmt_loop l =
    bindE (Lexer_next l) (\<lambda>(r, l1).
      if r = 10 \<or> r = eof then Inr (Lexer_backup l1) else lexSingleLineCmt_loop l1)"
  by pat_completeness auto
termination
proof (relation "measure remaining")
  show "wf (measure remaining)" by simp
next
  fix l l1 :: Lexer and x r
  assume "Lexer_next l = Inr x" "(r, l1) = x" "\<not> (r = 10 \<or> r = eof)"
  then have "Lexer_next l = Inr (r, l1)" "r \<noteq> eof" by auto
  then show "(l1, l) \<in> measure remaining"
    by (simp add: Lexer_next_remaining)
qed

definition lexSingleLineCmt :: "StateFn option \<Rightarrow> Lexer \<Rightarrow> fault + StateFn option \<times> Lexer" where
  "lexSingleLineCmt nextFn l =
    bindE (Lexer_next l) (\<lambda>(r, l1).
    bindE (if r = 45 \<or> r = 47 then bindE (Lexer_next l1) (\<lambda>(r1, l2). Inr l2)
           else Inr l1) (\<lambda>l2.
    bindE (lexSingleLineCmt_loop l2) (\<lambda>l3.
    bindE (Lexer_emit TokenComment l3) (\<lambda>l4. Inr (nextFn, l4)))))"

definition lexComment :: "StateFn option \<Rightarrow> Lexer \<Rightarrow> fault + StateFn option \<times> Lexer" where
  "lexComment nextFn l =
    bindE (slice_from (input l) (pos l)) (\<lambda>s.
      if HasPrefix s ''/*'' then lexMultilineCmt nextFn l
      else if HasPrefix s ''//'' then lexSingleLineCmt nextFn l
      else if HasPrefix s ''--'' then lexSingleLineCmt nextFn l
      else if HasPrefix s ''#'' then lexSingleLineCmt nextFn l
      else Inr (None, l))"

definition lexLeftParen :: "StateFn option \<Rightarrow> Lexer \<Rightarrow> fault + StateFn option \<times> Lexer" where
  "lexLeftParen nextFn l =
    bindE (Lexer_next l) (\<lambda>(r, l1).
      if r = 40 then bindE (Lexer_emit TokenComment l1) (\<lambda>l2. Inr (nextFn, l2))
      else Inr (None, l1))"

section \<open>Numbers\<close>

definition decDigits :: string where
  "decDigits = ''0123456789''"

definition hexDigits :: string where
  "hexDigits = ''0123456789ABCDEF''"

text \<open>\<^verbatim>\<open>scanNumber\<close> returns \<open>(typ, ok)\<close>; every bare \<^verbatim>\<open>return\<close> hands back the \<open>typ\<close>
  set so far with \<open>ok = false\<close>.\<close>

definition scanNumber_tail :: "golib \<Rightarrow> TokenType \<Rightarrow> Lexer \<Rightarrow> fault + (TokenType \<times> bool) \<times> Lexer" where
  "scanNumber_tail U typ l =
    bindE (Lexer_peek l) (\<lambda>(r, l1).
      if isAlNum U r then bindE (Lexer_next l1) (\<lambda>(r1, l2). Inr ((typ, False), l2))
      else Inr ((typ, True), l1))"

definition scanNumber_exponent :: "golib \<Rightarrow> TokenType \<Rightarrow> Lexer \<Rightarrow> fault + (TokenType \<times> bool) \<times> Lexer" where
  "scanNumber_exponent U typ l =
    bindE (Lexer_accept ''e'' l) (\<lambda>(hasE, l1).
      if hasE then
        bindE (Lexer_accept ''+-'' l1) (\<lambda>(sgn, l2).
        bindE (Lexer_acceptRun decDigits l2) (\<lambda>(digits, l3).
          if \<not> digits then Inr ((typ, False), l3)
          else scanNumber_tail U TokenFloat l3))
      else scanNumber_tail U typ l1)"

definition scanNumber :: "golib \<Rightarrow> Lexer \<Rightarrow> fault + (TokenType \<times> bool) \<times> Lexer" where
  "scanNumber U l =
    bindE (Lexer_accept ''+-'' l) (\<lambda>(hasSign, l1).
    bindE (slice (input l1) (pos l1) (pos l1 + 2)) (\<lambda>prefix.
      if prefix = ''0x'' then
        (if hasSign then Inr ((TokenInteger, False), l1)
         else
           bindE (Lexer_acceptRun ''0x'' l1) (\<lambda>(any0x, l2).
           bindE (Lexer_acceptRun hexDigits l2) (\<lambda>(digits, l3).
             if \<not> digits then Inr ((TokenInteger, False), l3)
             else
               bindE (Lexer_accept ''.'' l3) (\<lambda>(dot, l4).
                 if dot then Inr ((TokenInteger, False), l4)
                 else scanNumber_tail U TokenInteger l4))))
      else
        bindE (Lexer_acceptRun decDigits l1) (\<lambda>(digits, l2).
          if \<not> digits then Inr ((TokenInteger, False), l2)
          else
            bindE (Lexer_accept ''.'' l2) (\<lambda>(dot, l3).
              if dot then
                bindE (Lexer_acceptRun decDigits l3) (\<lambda>(frac, l4).
                  if \<not> frac then Inr ((TokenInteger, False), l4)
                  else scanNumber_exponent U TokenFloat l4)
              else if \<not> hasSign then
                bindE (index (input l3) (start l3)) (\<lambda>c.
                  if c = CHR ''0'' then Inr ((TokenInteger, False), l3)
                  else scanNumber_exponent U TokenInteger l3)
              else
                bindE (index (input l3) (start l3 + 1)) (\<lambda>c.
                  if c = CHR ''0'' then Inr ((TokenInteger, False), l3)
                  else scanNumber_exponent U TokenInteger l3)))))"

definition lexNumber :: "golib \<Rightarrow> Lexer \<Rightarrow> fault + StateFn option \<times> Lexer" where
  "lexNumber U l =
    bindE (scanNumber U l) (\<lambda>((typ, ok), l1).
      if \<not> ok then
        bindE (slice (input l1) (start l1) (pos l1)) (\<lambda>shown.
          Lexer_errorf (''bad number syntax: '' @ libQuote U shown) l1)
      else bindE (Lexer_emit typ l1) (\<lambda>l2. Inr (None, l2)))"

section \<open>State functions\<close>

text \<open>\<^verbatim>\<open>lexStatement\<close>. In the default case the log line calls \<^verbatim>\<open>l.peek()\<close> once more,
  and control falls through to the two emits below the switch.\<close>

definition lexStatement :: "golib \<Rightarrow> Lexer \<Rightarrow> fault + StateFn option \<times> Lexer" where
  "lexStatement U l =
    bindE (Lexer_skipWhiteSpaces U l) (\<lambda>l1.
    bindE (Lexer_peek l1) (\<lambda>(r, l2).
      if r = 47 \<or> r = 45 \<or> r = 35 then lexComment (Some LexStatement) l2
      else if r = 115 \<or> r = 83 then
        Lexer_lexMatch U TokenSelect 0 (Some LexColumnOrComma)
          (Lexer_push ''from keyword'' (StateFnKeyword TokenFrom LexSqlFromTable) l2)
      else
        bindE (Lexer_peek l2) (\<lambda>(logged, l3).
        bindE (if pos l3 > start l3 then Lexer_emit TokenText l3 else Inr l3) (\<lambda>l4.
        bindE (Lexer_emit TokenEOF l4) (\<lambda>l5. Inr (None, l5))))))"

definition lexExpression :: "Lexer \<Rightarrow> fault + StateFn option \<times> Lexer" where
  "lexExpression l =
    bindE (Lexer_next l) (\<lambda>(firstChar, l1).
      if firstChar \<noteq> 40 then
        bindE (slice (input l1) (start l1) (pos l1)) (\<lambda>shown. Lexer_errorToken l1)
      else bindE (Lexer_emit TokenLeftParenthesis l1) (\<lambda>l2. Inr (Some LexColumnOrComma, l2)))"

text \<open>\<^verbatim>\<open>lexExpressionOrIdentity\<close>: the three branches are chosen by \<^verbatim>\<open>isExpr\<close> and
  \<^verbatim>\<open>isIdentity\<close>; the result of \<^verbatim>\<open>lexIdentifier\<close> is dropped and nil returned.\<close>

definition lexExpressionOrIdentity ::
  "golib \<Rightarrow> Lexer \<Rightarrow> (fault + StateFn option \<times> Lexer) option" where
  "lexExpressionOrIdentity U l =
    (case bindE (Lexer_skipWhiteSpaces U l) (\<lambda>l1.
          bindE (Lexer_peekWord U l1) (\<lambda>peek.
          bindE (Lexer_peek l1) (\<lambda>(peekChar, l2).
          bindE (Lexer_isExpr U l2) (\<lambda>(isExpr, l3).
            if isExpr then Inr (0::nat, l3)
            else bindE (Lexer_isIdentity U l3) (\<lambda>(isIdentity, l4).
              if isIdentity then Inr (1, l4) else Inr (2, l4)))))) of
       Inl e \<Rightarrow> Some (Inl e)
     | Inr (branch, l5) \<Rightarrow>
         if branch = 0 then Some (lexExpressionIdentifier U (Some LexExpression) l5)
         else if branch = 1 then
           Some (bindE (Lexer_peekWord U l5) (\<lambda>logged.
                 bindE (Lexer_lexIdentifier U TokenColumn None l5) (\<lambda>(st, l6).
                   Inr (None, l6))))
         else Lexer_lexValue U l5)"

text \<open>The closure made by \<^verbatim>\<open>makeStateFnKeyword\<close> matches \<^verbatim>\<open>TokenFrom\<close> whatever its
  \<open>tokenType\<close> is.\<close>

definition makeStateFnKeyword ::
  "golib \<Rightarrow> TokenType \<Rightarrow> StateFn \<Rightarrow> Lexer \<Rightarrow> fault + StateFn option \<times> Lexer" where
  "makeStateFnKeyword U tokenType matchFn l =
    bindE (Lexer_skipWhiteSpaces U l) (\<lambda>l1. Lexer_lexMatch U TokenFrom 0 (Some matchFn) l1)"

definition lexSqlFromTable :: "golib \<Rightarrow> Lexer \<Rightarrow> fault + StateFn option \<times> Lexer" where
  "lexSqlFromTable U l =
    bindE (Lexer_peekWord U l) (\<lambda>logged.
      Lexer_lexIdentifier U TokenTable (Some LexSqlWhere) l)"

definition lexSqlEndOfStatement :: "golib \<Rightarrow> Lexer \<Rightarrow> fault + StateFn option \<times> Lexer" where
  "lexSqlEndOfStatement U l =
    bindE (Lexer_skipWhiteSpaces U l) (\<lambda>l1.
    bindE (Lexer_next l1) (\<lambda>(r, l2).
    bindE (if r = 59 then Lexer_emit TokenEOS l2 else Inr l2) (\<lambda>l3.
      if Lexer_isEnd l3 then Inr (None, l3)
      else bindE (Lexer_current l3) (\<lambda>(cur, l4). Lexer_errorToken l4))))"

definition lexSqlWhere :: "golib \<Rightarrow> Lexer \<Rightarrow> fault + StateFn option \<times> Lexer" where
  "lexSqlWhere U l =
    Lexer_lexIfElseMatch U TokenWhere (Some LexSqlWhereColumn) (Some LexGroupBy) l"

definition lexSqlWhereColumn :: "golib \<Rightarrow> Lexer \<Rightarrow> fault + StateFn option \<times> Lexer" where
  "lexSqlWhereColumn U l = Lexer_lexIdentifier U TokenColumn (Some LexSqlWhereColumnExpr) l"

text \<open>\<^verbatim>\<open>lexSqlWhereCommaOrLogicOrNext\<close>: the first switch either returns (comma) or
  leaves the lexer for the second switch, on the upper-cased next word.\<close>

definition lexSqlWhereCommaOrLogicOrNext ::
  "golib \<Rightarrow> Lexer \<Rightarrow> fault + StateFn option \<times> Lexer" where
  "lexSqlWhereCommaOrLogicOrNext U l =
    bindE (Lexer_skipWhiteSpaces U l) (\<lambda>l1.
    bindE (Lexer_next l1) (\<lambda>(r, l2).
      if r = 44 then
        bindE (Lexer_emit TokenComma l2) (\<lambda>l3. Inr (Some LexSqlWhereColumn, l3))
      else
        bindE (if r = 40 then
                 bindE (Lexer_emit TokenLeftParenthesis l2) (Lexer_skipWhiteSpaces U)
               else if r = 41 then
                 bindE (Lexer_emit TokenRightParenthesis l2) (Lexer_skipWhiteSpaces U)
               else Inr (Lexer_backup l2)) (\<lambda>l3.
        bindE (Lexer_peekWord U l3) (\<lambda>word0.
          let word = strings_ToUpper U word0 in
          if word = [] then Inr (Some LexGroupBy, l3)
          else if word = runes ''OR'' then
            bindE (Lexer_skipX 2 l3) (\<lambda>l4.
            bindE (Lexer_emit TokenLogicOr l4) (\<lambda>l5. Inr (Some LexSqlWhereColumn, l5)))
          else if word = runes ''AND'' then
            bindE (Lexer_skipX 3 l3) (\<lambda>l4.
            bindE (Lexer_emit TokenLogicAnd (Lexer_backup l4)) (\<lambda>l5.
              Inr (Some LexSqlWhereColumn, l5)))
          else Inr (Some LexGroupBy, Lexer_backup l3)))))"

text \<open>\<^verbatim>\<open>lexSqlWhereColumnExpr\<close>: every case that does not return ends in the two pushes
  below the switch.\<close>

definition lexSqlWhereColumnExpr_end :: "Lexer \<Rightarrow> fault + StateFn option \<times> Lexer" where
  "lexSqlWhereColumnExpr_end l =
    Inr (None, Lexer_push ''lexValue'' LexValue
                 (Lexer_push ''lexSqlWhereCommaOrLogicOrNext'' LexSqlWhereCommaOrLogicOrNext l))"

definition lexSqlWhereColumnExpr :: "golib \<Rightarrow> Lexer \<Rightarrow> fault + StateFn option \<times> Lexer" where
  "lexSqlWhereColumnExpr U l =
    bindE (Lexer_skipWhiteSpaces U l) (\<lambda>l1.
    bindE (Lexer_next l1) (\<lambda>(r, l2).
      if r = 33 then
        bindE (Lexer_peek l2) (\<lambda>(r2, l3).
          if r2 = 61 then
            bindE (Lexer_next l3) (\<lambda>(r3, l4).
            bindE (Lexer_emit TokenNE l4) lexSqlWhereColumnExpr_end)
          else Inr (None, l3))
      else if r = 61 then
        bindE (Lexer_emit TokenEqual l2) lexSqlWhereColumnExpr_end
      else if r = 62 then
        bindE (Lexer_peek l2) (\<lambda>(r2, l3).
        bindE (if r2 = 61 then
                 bindE (Lexer_next l3) (\<lambda>(r3, l4). Lexer_emit TokenGE l4)
               else Inr l3) (\<lambda>l5.
        bindE (Lexer_emit TokenGT l5) lexSqlWhereColumnExpr_end))
      else if r = 60 then
        bindE (Lexer_peek l2) (\<lambda>(r2, l3).
        bindE (if r2 = 61 then
                 bindE (Lexer_next l3) (\<lambda>(r3, l4). Lexer_emit TokenLE l4)
               else Inr l3) lexSqlWhereColumnExpr_end)
      else
        bindE (Lexer_peekWord U (Lexer_backup l2)) (\<lambda>word0.
          let l3 = Lexer_backup l2; word = strings_ToUpper U word0 in
          if word = runes ''IN'' then
            bindE (Lexer_skipX 2 l3) (\<lambda>l4.
            bindE (Lexer_emit TokenIN l4) (\<lambda>l5.
              Inr (None, Lexer_push ''lexColumnOrComma'' LexColumnOrComma
                           (Lexer_push ''lexSqlWhereCommaOrLogicOrNext''
                              LexSqlWhereCommaOrLogicOrNext l5))))
          else if word = runes ''LIKE'' then
            bindE (Lexer_skipX 4 l3) (\<lambda>l4.
            bindE (Lexer_emit TokenLike l4) lexSqlWhereColumnExpr_end)
          else lexSqlWhereColumnExpr_end l3)))"

definition lexGroupBy :: "golib \<Rightarrow> Lexer \<Rightarrow> fault + StateFn option \<times> Lexer" where
  "lexGroupBy U l =
    Lexer_lexIfElseMatch U TokenGroupBy (Some LexSqlGroupByColumns) (Some LexSqlEndOfStatement) l"

definition lexSqlGroupByColumns :: "Lexer \<Rightarrow> fault + StateFn option \<times> Lexer" where
  "lexSqlGroupByColumns l = Inr (Some LexColumnOrComma, l)"

text \<open>\<^verbatim>\<open>lexColumnOrComma\<close>. \<^verbatim>\<open>strings.ToLower(p2) == "s "\<close> compares the lower-cased
  two bytes after an \<open>a\<close> or \<open>A\<close>. The switch on \<open>r\<close> follows.\<close>

definition lexColumnOrComma_switch ::
  "golib \<Rightarrow> int \<Rightarrow> Lexer \<Rightarrow> fault + StateFn option \<times> Lexer" where
  "lexColumnOrComma_switch U r l =
    (if r = 40 then
       bindE (Lexer_emit TokenLeftParenthesis l) (\<lambda>l1. Inr (Some LexColumnOrComma, l1))
     else if r = 41 then
       bindE (Lexer_emit TokenRightParenthesis l) (\<lambda>l1. Inr (None, l1))
     else if r = 44 then
       bindE (Lexer_emit TokenComma l) (\<lambda>l1. Inr (Some LexColumnOrComma, l1))
     else if r = 42 then
       bindE (Lexer_emit TokenStar l) (\<lambda>l1. Inr (None, l1))
     else
       bindE (Lexer_isNextKeyword U (Lexer_backup l)) (\<lambda>kw.
         let l1 = Lexer_backup l in
         if kw then Inr (None, l1)
         else Inr (Some LexExpressionOrIdentity,
                   if length (stack l1) < 10
                   then Lexer_push ''columnorcomma'' LexColumnOrComma l1 else l1)))"

definition lexColumnOrComma :: "golib \<Rightarrow> Lexer \<Rightarrow> fault + StateFn option \<times> Lexer" where
  "lexColumnOrComma U l =
    bindE (Lexer_skipWhiteSpaces U l) (\<lambda>l1.
    bindE (Lexer_next l1) (\<lambda>(r, l2).
      if unicode_ToLower U r = 97 then
        bindE (Lexer_peekX 2 l2) (\<lambda>p2.
          if strings_ToLower U (runes p2) = runes ''s '' then
            bindE (Lexer_next l2) (\<lambda>(r1, l3).
            bindE (Lexer_emit TokenAs l3) (\<lambda>l4. Inr (Some LexValue, l4)))
          else lexColumnOrComma_switch U r l2)
      else lexColumnOrComma_switch U r l2))"

section \<open>The driver\<close>

text \<open>Calling a \<^verbatim>\<open>StateFn\<close> value: \<open>None\<close> when the call never returns.\<close>

fun call_StateFn :: "golib \<Rightarrow> StateFn \<Rightarrow> Lexer \<Rightarrow> (fault + StateFn option \<times> Lexer) option" where
  "call_StateFn U LexStatement l = Some (lexStatement U l)"
| "call_StateFn U LexValue l = lexValue U l"
| "call_StateFn U LexExpressionOrIdentity l = lexExpressionOrIdentity U l"
| "call_StateFn U LexExpression l = Some (lexExpression l)"
| "call_StateFn U LexSqlFromTable l = Some (lexSqlFromTable U l)"
| "call_StateFn U LexSqlEndOfStatement l = Some (lexSqlEndOfStatement U l)"
| "call_StateFn U LexSqlWhere l = Some (lexSqlWhere U l)"
| "call_StateFn U LexSqlWhereColumn l = Some (lexSqlWhereColumn U l)"
| "call_StateFn U LexSqlWhereCommaOrLogicOrNext l = Some (lexSqlWhereCommaOrLogicOrNext U l)"
| "call_StateFn U LexSqlWhereColumnExpr l = Some (lexSqlWhereColumnExpr U l)"
| "call_StateFn U LexGroupBy l = Some (lexGroupBy U l)"
| "call_StateFn U LexSqlGroupByColumns l = Some (lexSqlGroupByColumns l)"
| "call_StateFn U LexColumnOrComma l = Some (lexColumnOrComma U l)"
| "call_StateFn U LexNumber l = Some (lexNumber U l)"
| "call_StateFn U (StateFnKeyword tokenType matchFn) l =
     Some (makeStateFnKeyword U tokenType matchFn l)"

text \<open>
  \<^verbatim>\<open>NextToken\<close>: a token waiting in the channel is received and returned. Otherwise a
  nil state is replaced by the top of the stack, or, with an empty stack, an
  end-of-input token is returned; then the state function runs and its result becomes
  the state. The loop has no bound of its own, so the function is partial.
\<close>

partial_function (option) NextToken :: "golib \<Rightarrow> Lexer \<Rightarrow> (fault + Token \<times> Lexer) option" where
  "NextToken U l =
    (case tokens l of
       Some token \<Rightarrow> Some (Inr (token, l\<lparr>tokens := None\<rparr>))
     | None \<Rightarrow>
         if state l = None \<and> length (stack l) = 0 then
           Some (Inr (\<lparr>T = TokenEOF, V = []\<rparr>, l))
         else
           (case (if state l = None then Lexer_pop l else Inr (state l, l)) of
              Inl e \<Rightarrow> Some (Inl e)
            | Inr (None, l1) \<Rightarrow> Some (Inl NilStateFn)
            | Inr (Some st, l1) \<Rightarrow>
                (case call_StateFn U st (l1\<lparr>state := Some st\<rparr>) of
                   None \<Rightarrow> None
                 | Some (Inl e) \<Rightarrow> Some (Inl e)
                 | Some (Inr (st', l2)) \<Rightarrow> NextToken U (l2\<lparr>state := st'\<rparr>))))"

declare NextToken.simps [code]

text \<open>The caller's side: \<open>n\<close> calls of \<^verbatim>\<open>NextToken\<close> in a row, collecting the tokens.\<close>

fun NextTokens :: "golib \<Rightarrow> nat \<Rightarrow> Lexer \<Rightarrow> (fault + Token list \<times> Lexer) option" where
  "NextTokens U 0 l = Some (Inr ([], l))"
| "NextTokens U (Suc n) l =
    (case NextToken U l of
       None \<Rightarrow> None
     | Some (Inl e) \<Rightarrow> Some (Inl e)
     | Some (Inr (tok, l1)) \<Rightarrow>
         (case NextTokens U n l1 of
            None \<Rightarrow> None
          | Some (Inl e) \<Rightarrow> Some (Inl e)
          | Some (Inr (toks, l2)) \<Rightarrow> Some (Inr (tok # toks, l2))))"

section \<open>Observing results, and the inputs the claims speak of\<close>

text \<open>What a call left in the token channel, and the tokens a run of calls returned.\<close>

definition emitted :: "fault + 'a \<times> Lexer \<Rightarrow> fault + Token option" where
  "emitted res = map_sum id (\<lambda>(x, l). tokens l) res"

definition tokens_of :: "(fault + Token list \<times> Lexer) option \<Rightarrow> (fault + Token list) option" where
  "tokens_of res = map_option (map_sum id fst) res"

text \<open>
  A bare identifier, as the default case of \<^verbatim>\<open>lexIdentifier\<close> reads one: a first rune
  that is a letter, then runes that \<^verbatim>\<open>isIdentifierRune\<close> accepts, up to the end of the
  string. The library tables are a parameter here, so that no letter is a space (true
  of Unicode) is said of the first rune.
\<close>

function identifier_runes :: "golib \<Rightarrow> string \<Rightarrow> bool" where
  "identifier_runes U s =
    (if s = [] then True
     else (let (r, w) = DecodeRuneInString s in
           isIdentifierRune U r \<and> identifier_runes U (drop (nat w) s)))"
  by pat_completeness auto
termination
proof (relation "measure (\<lambda>(U, s). length s)")
  show "wf (measure (\<lambda>(U :: golib, s :: string). length s))" by simp
next
  fix U :: golib and s :: string and x :: "int \<times> int" and r w :: int
  assume ne: "s \<noteq> []" and x: "x = DecodeRuneInString s" and rw: "(r, w) = x"
  from DecodeRuneInString_width_pos [OF ne] x rw have "1 \<le> w" by (metis snd_conv)
  then show "((U, drop (nat w) s), (U, s)) \<in> measure (\<lambda>(U, s). length s)"
    using ne by (cases s) auto
qed

definition bare_identifier :: "golib \<Rightarrow> string \<Rightarrow> bool" where
  "bare_identifier U s =
    (s \<noteq> [] \<and>
     (let (r, w) = DecodeRuneInString s in
      unicode_IsLetter U r \<and> \<not> unicode_IsSpace U r \<and> identifier_runes U (drop (nat w) s)))"

text \<open>
  A name as the bracketed and quoted forms of \<^verbatim>\<open>lexIdentifier\<close> read one: a first rune
  that is a letter, then runes that \<^verbatim>\<open>isLaxIdentifierRune\<close> accepts, up to the end of the
  string.
\<close>

function lax_runes :: "golib \<Rightarrow> string \<Rightarrow> bool" where
  "lax_runes U s =
    (if s = [] then True
     else (let (r, w) = DecodeRuneInString s in
           isLaxIdentifierRune U r \<and> lax_runes U (drop (nat w) s)))"
  by pat_completeness auto
termination
proof (relation "measure (\<lambda>(U, s). length s)")
  show "wf (measure (\<lambda>(U :: golib, s :: string). length s))" by simp
next
  fix U :: golib and s :: string and x :: "int \<times> int" and r w :: int
  assume ne: "s \<noteq> []" and x: "x = DecodeRuneInString s" and rw: "(r, w) = x"
  from DecodeRuneInString_width_pos [OF ne] x rw have "1 \<le> w" by (metis snd_conv)
  then show "((U, drop (nat w) s), (U, s)) \<in> measure (\<lambda>(U, s). length s)"
    using ne by (cases s) auto
qed

definition lax_name :: "golib \<Rightarrow> string \<Rightarrow> bool" where
  "lax_name U s =
    (s \<noteq> [] \<and>
     (let (r, w) = DecodeRuneInString s in
      unicode_IsLetter U r \<and> lax_runes U (drop (nat w) s)))"

text \<open>An ASCII byte after a string does not change how the string's first rune decodes.\<close>

text \<open>A string without a quote (the bytes 0x27 and 0x22) and without a NUL byte, and a
  lexer whose last rune read and whose remaining input are so.\<close>

definition no_quote_no_nul :: "string \<Rightarrow> bool" where
  "no_quote_no_nul s = (\<forall>c \<in> set s. byte c \<noteq> 39 \<and> byte c \<noteq> 34 \<and> byte c \<noteq> 0)"

definition unclosed_at :: "int \<Rightarrow> Lexer \<Rightarrow> bool" where
  "unclosed_at rune l =
    (0 \<le> pos l \<and> rune \<noteq> 39 \<and> rune \<noteq> 34 \<and> rune \<noteq> 0
     \<and> no_quote_no_nul (drop (nat (pos l)) (input l)))"

text \<open>\<open>moved l l1\<close>: \<open>l1\<close> is \<open>l\<close> after some reads, with the same input and token start
  and a position that has not gone back.\<close>

definition moved :: "Lexer \<Rightarrow> Lexer \<Rightarrow> bool" where
  "moved l l1 = (input l1 = input l \<and> start l1 = start l \<and> pos l \<le> pos l1)"

text \<open>\<open>kept l l1\<close>: a read or a step back has changed nothing but position and width.\<close>

definition kept :: "Lexer \<Rightarrow> Lexer \<Rightarrow> bool" where
  "kept l l1 = (input l1 = input l \<and> tokens l1 = tokens l \<and> start l1 = start l
                \<and> stack l1 = stack l \<and> state l1 = state l)"

text \<open>An instance of the library parameter, to apply theorems at concrete inputs: it
  knows no letter, digit or space beyond ASCII, maps no case there, and quotes a string
  by putting it between double quotes.\<close>

definition plain_golib :: golib where
  "plain_golib =
    \<lparr>libIsLetter = (\<lambda>r. False), libIsDigit = (\<lambda>r. False), libIsSpace = (\<lambda>r. False),
     libToLower = (\<lambda>r. r), libToUpper = (\<lambda>r. r),
     libQuote = (\<lambda>s. CHR 0x22 # s @ [CHR 0x22])\<rparr>"

section \<open>Facts about decoding and the cursor\<close>

declare DecodeRuneInString.simps(2) [simp del]
declare skipWhiteSpaces_loop.simps [simp del]
declare acceptRun_loop.simps [simp del]
declare identifier_loop.simps [simp del]
declare laxIdentifier_loop.simps [simp del]
declare lexMultilineCmt_loop.simps [simp del]
declare lexSingleLineCmt_loop.simps [simp del]
declare runes.simps [simp del]
declare identifier_runes.simps [simp del]
declare lax_runes.simps [simp del]

lemma DecodeRuneInString_ascii:
  "byte c < 0x80 \<Longrightarrow> DecodeRuneInString (c # cs) = (int (byte c), 1)"
  by (simp add: DecodeRuneInString.simps)

lemma DecodeRuneInString_width_le: "snd (DecodeRuneInString s) \<le> int (length s)"
  by (cases s) (auto simp: DecodeRuneInString.simps Let_def Suc_le_eq)

lemma runes_Nil: "runes [] = []"
  by (subst runes.simps) simp

lemma runes_ascii: "byte c < 0x80 \<Longrightarrow> runes (c # cs) = int (byte c) # runes cs"
  by (subst runes.simps) (simp add: DecodeRuneInString_ascii)

text \<open>The masks of the decoder on the ranges of the lead and continuation bytes.\<close>

lemma mod_shift:
  fixes s n q :: nat
  assumes "n * q \<le> s" and "s < n * q + n"
  shows "s mod n = s - n * q"
proof -
  define k where "k = s - n * q"
  from assms have s: "s = n * q + k" and k: "k < n" by (simp_all add: k_def)
  show ?thesis unfolding s using k by simp
qed

lemma mod32: "192 \<le> s \<Longrightarrow> s < 224 \<Longrightarrow> s mod 32 = s - (192::nat)"
  using mod_shift [of 32 6 s] by simp

lemma mod64: "128 \<le> s \<Longrightarrow> s < 192 \<Longrightarrow> s mod 64 = s - (128::nat)"
  using mod_shift [of 64 2 s] by simp

lemma mod16: "224 \<le> s \<Longrightarrow> s < 240 \<Longrightarrow> s mod 16 = s - (224::nat)"
  using mod_shift [of 16 14 s] by simp

lemma mod8: "240 \<le> s \<Longrightarrow> s < 248 \<Longrightarrow> s mod 8 = s - (240::nat)"
  using mod_shift [of 8 30 s] by simp

text \<open>A rune below \<open>0x80\<close> is decoded from one byte only: its own.\<close>

lemma DecodeRuneInString_multibyte:
  assumes "0x80 \<le> byte c"
  shows "0x80 \<le> fst (DecodeRuneInString (c # cs))"
  using assms
  by (auto simp: DecodeRuneInString.simps Let_def RuneError_def mod32 mod64 mod16 mod8
        not_less not_le)

lemma DecodeRuneInString_small:
  assumes "DecodeRuneInString (c # cs) = (r, w)" and "r < 0x80"
  shows "r = int (byte c)"
proof (cases "byte c < 0x80")
  case True
  with assms show ?thesis by (simp add: DecodeRuneInString_ascii)
next
  case False
  with DecodeRuneInString_multibyte [of c cs] assms show ?thesis by simp
qed

text \<open>From a position that is not negative every cursor operation returns.\<close>

lemma Lexer_next_total:
  assumes "0 \<le> pos l"
  shows "\<exists>r l1. Lexer_next l = Inr (r, l1) \<and> input l1 = input l \<and> start l1 = start l
           \<and> tokens l1 = tokens l \<and> stack l1 = stack l
           \<and> pos l1 = pos l + width l1 \<and> 0 \<le> width l1 \<and> (r \<noteq> eof \<longrightarrow> 1 \<le> width l1)"
proof (cases "pos l \<ge> int (length (input l))")
  case True
  then show ?thesis by (simp add: Lexer_next_def)
next
  case False
  let ?s = "drop (nat (pos l)) (input l)"
  from False assms have ne: "?s \<noteq> []" by simp
  obtain r w where d: "DecodeRuneInString ?s = (r, w)" by (cases "DecodeRuneInString ?s")
  from DecodeRuneInString_width_pos [OF ne] d have "1 \<le> w" by simp
  with False assms d show ?thesis
    by (simp add: Lexer_next_def slice_from_def)
qed

lemma IndexRune_found_not_eof: "IndexRune_found valid r \<Longrightarrow> r \<noteq> eof"
  using runes_nonneg [of r valid] by (auto simp: IndexRune_found_def eof_def)

lemma Lexer_peek_total:
  assumes "0 \<le> pos l"
  shows "\<exists>r l1. Lexer_peek l = Inr (r, l1) \<and> moved l l1 \<and> pos l1 = pos l"
  using Lexer_next_total [OF assms]
  by (auto simp: Lexer_peek_def Lexer_backup_def moved_def)

lemma Lexer_accept_total:
  assumes "0 \<le> pos l"
  shows "\<exists>b l1. Lexer_accept valid l = Inr (b, l1) \<and> moved l l1 \<and> (b \<longrightarrow> pos l < pos l1)"
proof -
  from Lexer_next_total [OF assms] obtain r l1 where
    n: "Lexer_next l = Inr (r, l1)" "input l1 = input l" "start l1 = start l"
       "pos l1 = pos l + width l1" "0 \<le> width l1" "r \<noteq> eof \<longrightarrow> 1 \<le> width l1"
    by blast
  show ?thesis
  proof (cases "IndexRune_found valid r")
    case True
    with n IndexRune_found_not_eof [OF True] show ?thesis
      by (auto simp: Lexer_accept_def moved_def)
  next
    case False
    with n show ?thesis
      by (auto simp: Lexer_accept_def moved_def Lexer_backup_def)
  qed
qed

lemma acceptRun_loop_total:
  "0 \<le> pos l \<Longrightarrow>
   \<exists>l1. acceptRun_loop valid l = Inr l1 \<and> input l1 = input l \<and> start l1 = start l
        \<and> pos l \<le> pos l1 - width l1"
proof (induction valid l rule: acceptRun_loop.induct)
  case (1 valid l)
  from Lexer_next_total [OF "1.prems"] obtain r l1 where
    n: "Lexer_next l = Inr (r, l1)" "input l1 = input l" "start l1 = start l"
       "pos l1 = pos l + width l1" "0 \<le> width l1"
    by blast
  show ?case
  proof (cases "IndexRune_found valid r")
    case True
    from n "1.prems" have p1: "0 \<le> pos l1" by simp
    from "1.IH" [OF n(1) refl True p1] obtain l2 where
      "acceptRun_loop valid l1 = Inr l2" "input l2 = input l1" "start l2 = start l1"
      "pos l1 \<le> pos l2 - width l2"
      by blast
    with n True show ?thesis
      by (subst acceptRun_loop.simps) simp
  next
    case False
    with n show ?thesis
      by (subst acceptRun_loop.simps) simp
  qed
qed

lemma Lexer_acceptRun_total:
  assumes "0 \<le> pos l"
  shows "\<exists>b l1. Lexer_acceptRun valid l = Inr (b, l1) \<and> moved l l1"
  using acceptRun_loop_total [OF assms, of valid]
  by (auto simp: Lexer_acceptRun_def moved_def Lexer_backup_def Let_def)

text \<open>Within the input, reads stay within it, and skipping white space leaves the
  token start at the position.\<close>

lemma Lexer_next_bounded:
  assumes "0 \<le> pos l" and "pos l \<le> int (length (input l))"
  shows "\<exists>r l1. Lexer_next l = Inr (r, l1) \<and> kept l l1 \<and> pos l1 \<le> int (length (input l))
         \<and> pos l1 - width l1 = pos l"
proof (cases "pos l \<ge> int (length (input l))")
  case True
  with assms show ?thesis by (simp add: Lexer_next_def kept_def)
next
  case False
  let ?s = "drop (nat (pos l)) (input l)"
  obtain r w where d: "DecodeRuneInString ?s = (r, w)" by (cases "DecodeRuneInString ?s")
  from False assms have ls: "int (length ?s) = int (length (input l)) - pos l"
    by (simp add: of_nat_diff)
  from DecodeRuneInString_width_le [of ?s] d ls assms(1)
  have "w \<le> int (length (input l)) - pos l"
    by simp
  with False assms d show ?thesis
    by (simp add: Lexer_next_def slice_from_def kept_def)
qed

lemma skipWhiteSpaces_loop_bounded:
  "0 \<le> pos l \<Longrightarrow> pos l \<le> int (length (input l)) \<Longrightarrow>
   \<exists>l1. skipWhiteSpaces_loop U l = Inr l1 \<and> kept l l1
        \<and> 0 \<le> pos l1 - width l1 \<and> pos l1 - width l1 \<le> int (length (input l))"
proof (induction U l rule: skipWhiteSpaces_loop.induct)
  case (1 U l)
  from Lexer_next_bounded [OF "1.prems"] obtain r l1 where
    n: "Lexer_next l = Inr (r, l1)" "kept l l1" "pos l1 \<le> int (length (input l))"
       "pos l1 - width l1 = pos l"
    by blast
  show ?case
  proof (cases "unicode_IsSpace U r")
    case True
    then have "r \<noteq> eof" by (auto simp: unicode_IsSpace_def eof_def)
    from Lexer_next_total [OF "1.prems"(1)] n(1) this have "1 \<le> width l1" by auto
    with n "1.prems" have p1: "0 \<le> pos l1" "pos l1 \<le> int (length (input l1))"
      by (simp_all add: kept_def)
    from "1.IH" [OF n(1) refl True p1] obtain l2 where
      "skipWhiteSpaces_loop U l1 = Inr l2" "kept l1 l2" "0 \<le> pos l2 - width l2"
      "pos l2 - width l2 \<le> int (length (input l1))"
      by blast
    with n True show ?thesis
      by (subst skipWhiteSpaces_loop.simps) (simp add: kept_def)
  next
    case False
    with n "1.prems" show ?thesis
      by (subst skipWhiteSpaces_loop.simps) simp
  qed
qed

lemma Lexer_skipWhiteSpaces_bounded:
  assumes "0 \<le> pos l" and "pos l \<le> int (length (input l))"
  shows "\<exists>l1. Lexer_skipWhiteSpaces U l = Inr l1 \<and> input l1 = input l \<and> tokens l1 = tokens l
        \<and> start l1 = pos l1 \<and> 0 \<le> pos l1 \<and> pos l1 \<le> int (length (input l))"
  using skipWhiteSpaces_loop_bounded [OF assms, of U]
  by (auto simp: Lexer_skipWhiteSpaces_def Lexer_backup_def Lexer_ignore_def kept_def)

lemma Lexer_peek_kept:
  assumes "Lexer_peek l = Inr (r, l1)" and "0 \<le> pos l" and "pos l \<le> int (length (input l))"
  shows "kept l l1 \<and> pos l1 = pos l"
  using Lexer_next_bounded [OF assms(2,3)] assms(1)
  by (auto simp: Lexer_peek_def Lexer_backup_def kept_def)

section \<open>Facts about the number scanner\<close>

lemma scanNumber_tail_total:
  assumes "0 \<le> pos l"
  shows "\<exists>res. scanNumber_tail U typ l = Inr res"
proof -
  from Lexer_peek_total [OF assms] obtain r l1 where
    p: "Lexer_peek l = Inr (r, l1)" "pos l1 = pos l" by blast
  with assms have "0 \<le> pos l1" by simp
  from Lexer_next_total [OF this] obtain r1 l2 where "Lexer_next l1 = Inr (r1, l2)" by blast
  with p show ?thesis by (auto simp: scanNumber_tail_def)
qed

lemma scanNumber_exponent_total:
  assumes "0 \<le> pos l"
  shows "\<exists>res. scanNumber_exponent U typ l = Inr res"
proof -
  from Lexer_accept_total [OF assms] obtain hasE l1 where
    a: "Lexer_accept ''e'' l = Inr (hasE, l1)" "moved l l1" by blast
  with assms have p1: "0 \<le> pos l1" by (simp add: moved_def)
  from Lexer_accept_total [OF p1] obtain sgn l2 where
    b: "Lexer_accept ''+-'' l1 = Inr (sgn, l2)" "moved l1 l2" by blast
  with p1 have p2: "0 \<le> pos l2" by (simp add: moved_def)
  from Lexer_acceptRun_total [OF p2] obtain digits l3 where
    c: "Lexer_acceptRun decDigits l2 = Inr (digits, l3)" "moved l2 l3" by blast
  with p2 have p3: "0 \<le> pos l3" by (simp add: moved_def)
  from scanNumber_tail_total [OF p3] scanNumber_tail_total [OF p1] a b c
  show ?thesis by (auto simp: scanNumber_exponent_def)
qed

text \<open>The decimal branch of \<^verbatim>\<open>scanNumber\<close> returns when the bytes it indexes,
  \<^verbatim>\<open>l.input[l.start]\<close> or \<^verbatim>\<open>l.input[l.start+1]\<close>, exist; the hexadecimal branch always
  returns.\<close>

lemma scanNumber_decimal_total:
  assumes l1: "0 \<le> pos l1" "0 \<le> start l1" "start l1 < int (length (input l1))"
    and sign: "hasSign \<longrightarrow> start l1 + 1 < int (length (input l1))"
  shows "\<exists>res.
    bindE (Lexer_acceptRun decDigits l1) (\<lambda>(digits, l2).
          if \<not> digits then Inr ((TokenInteger, False), l2)
          else
            bindE (Lexer_accept ''.'' l2) (\<lambda>(dot, l3).
              if dot then
                bindE (Lexer_acceptRun decDigits l3) (\<lambda>(frac, l4).
                  if \<not> frac then Inr ((TokenInteger, False), l4)
                  else scanNumber_exponent U TokenFloat l4)
              else if \<not> hasSign then
                bindE (index (input l3) (start l3)) (\<lambda>c.
                  if c = CHR ''0'' then Inr ((TokenInteger, False), l3)
                  else scanNumber_exponent U TokenInteger l3)
              else
                bindE (index (input l3) (start l3 + 1)) (\<lambda>c.
                  if c = CHR ''0'' then Inr ((TokenInteger, False), l3)
                  else scanNumber_exponent U TokenInteger l3))) = Inr res"
proof -
  from Lexer_acceptRun_total [OF l1(1)] obtain digits l2 where
    a: "Lexer_acceptRun decDigits l1 = Inr (digits, l2)" "moved l1 l2" by blast
  with l1 have p2: "0 \<le> pos l2" by (simp add: moved_def)
  from Lexer_accept_total [OF p2] obtain dot l3 where
    b: "Lexer_accept ''.'' l2 = Inr (dot, l3)" "moved l2 l3" by blast
  with p2 have p3: "0 \<le> pos l3" by (simp add: moved_def)
  from a b have m3: "input l3 = input l1" "start l3 = start l1" by (simp_all add: moved_def)
  from Lexer_acceptRun_total [OF p3] obtain frac l4 where
    c: "Lexer_acceptRun decDigits l3 = Inr (frac, l4)" "moved l3 l4" by blast
  with p3 have p4: "0 \<le> pos l4" by (simp add: moved_def)
  from scanNumber_exponent_total [OF p4] scanNumber_exponent_total [OF p3] a b c m3 l1 sign
  show ?thesis by (auto simp: index_def)
qed

lemma scanNumber_hex_total:
  assumes l1: "0 \<le> pos l1"
  shows "\<exists>res.
    bindE (Lexer_acceptRun ''0x'' l1) (\<lambda>(any0x, l2).
           bindE (Lexer_acceptRun hexDigits l2) (\<lambda>(digits, l3).
             if \<not> digits then Inr ((TokenInteger, False), l3)
             else
               bindE (Lexer_accept ''.'' l3) (\<lambda>(dot, l4).
                 if dot then Inr ((TokenInteger, False), l4)
                 else scanNumber_tail U TokenInteger l4))) = Inr res"
proof -
  from Lexer_acceptRun_total [OF l1] obtain any0x l2 where
    a: "Lexer_acceptRun ''0x'' l1 = Inr (any0x, l2)" "moved l1 l2" by blast
  with l1 have p2: "0 \<le> pos l2" by (simp add: moved_def)
  from Lexer_acceptRun_total [OF p2] obtain digits l3 where
    b: "Lexer_acceptRun hexDigits l2 = Inr (digits, l3)" "moved l2 l3" by blast
  with p2 have p3: "0 \<le> pos l3" by (simp add: moved_def)
  from Lexer_accept_total [OF p3] obtain dot l4 where
    c: "Lexer_accept ''.'' l3 = Inr (dot, l4)" "moved l3 l4" by blast
  with p3 have p4: "0 \<le> pos l4" by (simp add: moved_def)
  from scanNumber_tail_total [OF p4] a b c show ?thesis by auto
qed

section \<open>Facts about the quoted-value loop\<close>

lemma no_quote_no_nul_drop: "no_quote_no_nul s \<Longrightarrow> no_quote_no_nul (drop n s)"
  by (auto simp: no_quote_no_nul_def dest: in_set_dropD)

text \<open>Reading from input without quote or NUL gives a rune that is neither, and leaves
  such input.\<close>

lemma Lexer_next_unclosed:
  assumes n: "Lexer_next l = Inr (r, l1)" and p: "0 \<le> pos l"
    and u: "no_quote_no_nul (drop (nat (pos l)) (input l))"
  shows "r \<noteq> 39 \<and> r \<noteq> 34 \<and> r \<noteq> 0 \<and> 0 \<le> pos l1
         \<and> no_quote_no_nul (drop (nat (pos l1)) (input l1))"
proof (cases "pos l \<ge> int (length (input l))")
  case True
  with n u show ?thesis by (auto simp: Lexer_next_def eof_def)
next
  case False
  let ?s = "drop (nat (pos l)) (input l)"
  from False p obtain c cs where s: "?s = c # cs" by (cases ?s) auto
  obtain r' w where d: "DecodeRuneInString ?s = (r', w)" by (cases "DecodeRuneInString ?s")
  from False p n d have r: "r' = r" and l1: "l1 = l\<lparr>width := w, pos := pos l + w\<rparr>"
    by (simp_all add: Lexer_next_def slice_from_def)
  from DecodeRuneInString_width_pos [of ?s] s d have w: "1 \<le> w" by simp
  from u s have c: "byte c \<noteq> 39" "byte c \<noteq> 34" "byte c \<noteq> 0"
    by (simp_all add: no_quote_no_nul_def)
  have "r \<noteq> 39 \<and> r \<noteq> 34 \<and> r \<noteq> 0"
  proof (cases "r < 0x80")
    case True
    from DecodeRuneInString_small [of c cs r w] d s r True have "r = int (byte c)" by simp
    with c show ?thesis by simp
  next
    case False
    then show ?thesis by simp
  qed
  moreover from w p have eq: "drop (nat (pos l + w)) (input l) = drop (nat w) ?s"
    by (simp add: nat_add_distrib add.commute)
  have "no_quote_no_nul (drop (nat w) ?s)"
    using u by (rule no_quote_no_nul_drop)
  then have "no_quote_no_nul (drop (nat (pos l + w)) (input l))"
    by (simp only: eq)
  ultimately show ?thesis using w p by (simp add: l1)
qed

text \<open>The loop returns from no such state: by induction on the fixed point that defines
  it.\<close>

lemma lexValue_quoted_returns:
  assumes "lexValue_quoted typ rune l = Some y"
  shows "\<not> unclosed_at rune l"
proof (rule lexValue_quoted.raw_induct
    [where P = "\<lambda>ty r l y. \<not> unclosed_at r l", OF _ assms], goal_cases)
  case (1 f ty r l y)
  show ?case
  proof
    assume a: "unclosed_at r l"
    then have p: "0 \<le> pos l" and nq: "r \<noteq> 39" "r \<noteq> 34" "r \<noteq> 0"
      and u: "no_quote_no_nul (drop (nat (pos l)) (input l))"
      by (simp_all add: unclosed_at_def)
    from Lexer_next_total [OF p] obtain r1 l1 where n: "Lexer_next l = Inr (r1, l1)"
      by blast
    from Lexer_next_unclosed [OF n p u] have inv: "unclosed_at r1 l1"
      by (simp add: unclosed_at_def)
    from "1"(2) nq n have "f ty r1 l1 = Some y" by simp
    from "1"(1) [OF this] inv show False by simp
  qed
qed

lemma lexValue_quoted_diverges:
  assumes "unclosed_at rune l"
  shows "lexValue_quoted typ rune l = None"
proof (cases "lexValue_quoted typ rune l")
  case None
  then show ?thesis .
next
  case (Some y)
  from lexValue_quoted_returns [OF Some] assms show ?thesis by simp
qed

lemma lexValue_open_quote:
  assumes q: "q = CHR 0x27 \<or> q = CHR 0x22" and body: "no_quote_no_nul body"
  shows "Lexer_lexValue U (NewLexer (q # body)) = None"
proof -
  let ?mk = "\<lambda>p s w. \<lparr>input = q # body, state = Some LexStatement, pos = p, start = s,
        width = w, tokens = None, doubleDelim = False, stack = []\<rparr>"
  from q have bq: "byte q < 0x80" "int (byte q) = 39 \<or> int (byte q) = 34"
    by (auto simp: byte_def)
  then have nsp: "\<not> unicode_IsSpace U (int (byte q))"
    by (auto simp: unicode_IsSpace_def)
  have n0: "\<And>s w. Lexer_next (?mk 0 s w) = Inr (int (byte q), ?mk 1 s 1)"
    using bq by (simp add: Lexer_next_def slice_from_def DecodeRuneInString_ascii)
  have sk: "Lexer_skipWhiteSpaces U (NewLexer (q # body)) = Inr (?mk 0 0 1)"
    apply (simp add: Lexer_skipWhiteSpaces_def NewLexer_def)
    apply (subst skipWhiteSpaces_loop.simps)
    apply (simp add: n0 nsp Lexer_backup_def Lexer_ignore_def)
    done
  from Lexer_next_total [of "?mk 1 1 1"] obtain r1 l3 where
    n1: "Lexer_next (?mk 1 1 1) = Inr (r1, l3)" by auto
  from Lexer_next_unclosed [OF n1] body have inv: "unclosed_at r1 l3"
    by (simp add: unclosed_at_def)
  have "lexValue_quoted TokenValue r1 l3 = None"
    using inv by (rule lexValue_quoted_diverges)
  with bq show ?thesis
    by (auto simp: Lexer_lexValue_def sk Lexer_isEnd_def n0 Lexer_ignore_def n1)
qed

section \<open>Facts about SELECT * FROM table\<close>

lemmas cursor_defs =
  Lexer_next_def Lexer_backup_def Lexer_peek_def Lexer_ignore_def Lexer_emit_def
  Lexer_isEnd_def Lexer_push_def Lexer_pop_def Lexer_current_def Lexer_errorToken_def
  Lexer_skipWhiteSpaces_def Lexer_peekWord_def Lexer_match_def Lexer_tryMatch_def
  Lexer_lexMatch_def Lexer_lexIfElseMatch_def slice_def slice_from_def
  unicode_IsSpace_def unicode_IsLetter_def unicode_IsDigit_def unicode_ToLower_def
  unicode_ToUpper_def isAlNumOrPeriod_def isWhiteSpace_def TokenType_String_def byte_def eof_def
  DecodeRuneInString_ascii runes_Nil runes_ascii

lemma isIdentifierRune_eof: "\<not> isIdentifierRune U eof"
  by (simp add: isIdentifierRune_def IDENTITY_CHARS_def cursor_defs)

text \<open>Over identifier runes the loop of \<^verbatim>\<open>lexIdentifier\<close> runs to the end of the input,
  where the read of \<^verbatim>\<open>eof\<close> leaves the width 0.\<close>

lemma identifier_loop_to_end:
  "0 \<le> pos l \<Longrightarrow> pos l \<le> int (length (input l)) \<Longrightarrow>
   identifier_runes U (drop (nat (pos l)) (input l)) \<Longrightarrow>
   identifier_loop U l = Inr (l\<lparr>width := 0, pos := int (length (input l))\<rparr>)"
proof (induction U l rule: identifier_loop.induct)
  case (1 U l)
  show ?case
  proof (cases "pos l = int (length (input l))")
    case True
    then have "Lexer_next l = Inr (eof, l\<lparr>width := 0\<rparr>)"
      by (simp add: Lexer_next_def)
    with True show ?thesis
      by (subst identifier_loop.simps) (simp add: isIdentifierRune_eof)
  next
    case False
    let ?s = "drop (nat (pos l)) (input l)"
    from False "1.prems" have ne: "?s \<noteq> []" by simp
    obtain r w where d: "DecodeRuneInString ?s = (r, w)"
      by (cases "DecodeRuneInString ?s")
    from False "1.prems" have ls: "int (length ?s) = int (length (input l)) - pos l"
      by (simp add: of_nat_diff)
    from DecodeRuneInString_width_pos [OF ne] DecodeRuneInString_width_le [of ?s] d ls
      "1.prems"(1)
    have w: "1 \<le> w" "w \<le> int (length (input l)) - pos l" by simp_all
    let ?l1 = "l\<lparr>width := w, pos := pos l + w\<rparr>"
    from False "1.prems" d have n: "Lexer_next l = Inr (r, ?l1)"
      by (simp add: Lexer_next_def slice_from_def)
    from "1.prems"(3) ne d have idr: "isIdentifierRune U r"
      and rest: "identifier_runes U (drop (nat w) ?s)"
      by (subst (asm) identifier_runes.simps, simp)+
    from w "1.prems" have p1: "0 \<le> pos ?l1" "pos ?l1 \<le> int (length (input ?l1))"
      by simp_all
    from w "1.prems" have "drop (nat (pos ?l1)) (input ?l1) = drop (nat w) ?s"
      by (simp add: nat_add_distrib add.commute)
    with rest have r1: "identifier_runes U (drop (nat (pos ?l1)) (input ?l1))" by simp
    from "1.IH" [OF n refl idr p1 r1] n idr show ?thesis
      by (subst identifier_loop.simps) simp
  qed
qed

text \<open>The five calls of \<^verbatim>\<open>NextToken\<close>, one lemma each, with the lexer between them
  written out.\<close>

lemma select_step:
  "NextToken U (NewLexer (''SELECT * FROM '' @ t)) =
     Some (Inr (\<lparr>T = TokenSelect, V = ''SELECT''\<rparr>,
       \<lparr>input = ''SELECT * FROM '' @ t, state = Some LexColumnOrComma, pos = 6, start = 6,
        width = 1, tokens = None, doubleDelim = False,
        stack = [(''from keyword'', StateFnKeyword TokenFrom LexSqlFromTable)]\<rparr>))"
  by (simp add: NextToken.simps NewLexer_def lexStatement_def cursor_defs
        skipWhiteSpaces_loop.simps)

lemma star_step:
  "NextToken U \<lparr>input = ''SELECT * FROM '' @ t, state = Some LexColumnOrComma, pos = 6, start = 6,
        width = 1, tokens = None, doubleDelim = False,
        stack = [(''from keyword'', StateFnKeyword TokenFrom LexSqlFromTable)]\<rparr> =
     Some (Inr (\<lparr>T = TokenStar, V = ''*''\<rparr>,
       \<lparr>input = ''SELECT * FROM '' @ t, state = None, pos = 8, start = 8,
        width = 1, tokens = None, doubleDelim = False,
        stack = [(''from keyword'', StateFnKeyword TokenFrom LexSqlFromTable)]\<rparr>))"
  by (simp add: NextToken.simps lexColumnOrComma_def lexColumnOrComma_switch_def cursor_defs
        skipWhiteSpaces_loop.simps)

lemma from_step:
  "NextToken U \<lparr>input = ''SELECT * FROM '' @ t, state = None, pos = 8, start = 8,
        width = 1, tokens = None, doubleDelim = False,
        stack = [(''from keyword'', StateFnKeyword TokenFrom LexSqlFromTable)]\<rparr> =
     Some (Inr (\<lparr>T = TokenFrom, V = ''FROM''\<rparr>,
       \<lparr>input = ''SELECT * FROM '' @ t, state = Some LexSqlFromTable, pos = 13, start = 13,
        width = 1, tokens = None, doubleDelim = False, stack = []\<rparr>))"
  by (simp add: NextToken.simps makeStateFnKeyword_def cursor_defs
        skipWhiteSpaces_loop.simps)

text \<open>The same three calls on the keywords in lower case.\<close>

lemma select_step_lower:
  "NextToken U (NewLexer (''select * from '' @ t)) =
     Some (Inr (\<lparr>T = TokenSelect, V = ''select''\<rparr>,
       \<lparr>input = ''select * from '' @ t, state = Some LexColumnOrComma, pos = 6, start = 6,
        width = 1, tokens = None, doubleDelim = False,
        stack = [(''from keyword'', StateFnKeyword TokenFrom LexSqlFromTable)]\<rparr>))"
  by (simp add: NextToken.simps NewLexer_def lexStatement_def cursor_defs
        skipWhiteSpaces_loop.simps)

lemma star_step_lower:
  "NextToken U \<lparr>input = ''select * from '' @ t, state = Some LexColumnOrComma, pos = 6, start = 6,
        width = 1, tokens = None, doubleDelim = False,
        stack = [(''from keyword'', StateFnKeyword TokenFrom LexSqlFromTable)]\<rparr> =
     Some (Inr (\<lparr>T = TokenStar, V = ''*''\<rparr>,
       \<lparr>input = ''select * from '' @ t, state = None, pos = 8, start = 8,
        width = 1, tokens = None, doubleDelim = False,
        stack = [(''from keyword'', StateFnKeyword TokenFrom LexSqlFromTable)]\<rparr>))"
  by (simp add: NextToken.simps lexColumnOrComma_def lexColumnOrComma_switch_def cursor_defs
        skipWhiteSpaces_loop.simps)

lemma from_step_lower:
  "NextToken U \<lparr>input = ''select * from '' @ t, state = None, pos = 8, start = 8,
        width = 1, tokens = None, doubleDelim = False,
        stack = [(''from keyword'', StateFnKeyword TokenFrom LexSqlFromTable)]\<rparr> =
     Some (Inr (\<lparr>T = TokenFrom, V = ''from''\<rparr>,
       \<lparr>input = ''select * from '' @ t, state = Some LexSqlFromTable, pos = 13, start = 13,
        width = 1, tokens = None, doubleDelim = False, stack = []\<rparr>))"
  by (simp add: NextToken.simps makeStateFnKeyword_def cursor_defs
        skipWhiteSpaces_loop.simps)

lemma table_step:
  assumes inp: "drop 13 inp = CHR '' '' # t" and bi: "bare_identifier U t"
  shows "NextToken U \<lparr>input = inp, state = Some LexSqlFromTable, pos = 13, start = 13,
        width = 1, tokens = None, doubleDelim = False, stack = []\<rparr> =
     Some (Inr (\<lparr>T = TokenTable, V = t\<rparr>,
       \<lparr>input = inp, state = Some LexSqlWhere, pos = int (length inp),
        start = int (length inp), width = 0, tokens = None, doubleDelim = False, stack = []\<rparr>))"
proof -
  let ?mk = "\<lambda>st p s w tk. \<lparr>input = inp, state = st, pos = p, start = s,
        width = w, tokens = tk, doubleDelim = False, stack = []\<rparr>"
  from inp have "length (drop 13 inp) = Suc (length t)" by simp
  then have len: "int (length inp) = 14 + int (length t)" by simp
  have "drop 14 inp = drop 1 (drop 13 inp)" by simp
  then have d14: "drop 14 inp = t" by (simp add: inp)
  obtain r0 w0 where dec: "DecodeRuneInString t = (r0, w0)"
    by (cases "DecodeRuneInString t")
  from bi dec have ne: "t \<noteq> []" and letter: "unicode_IsLetter U r0"
    and nospace: "\<not> unicode_IsSpace U r0" and rest: "identifier_runes U (drop (nat w0) t)"
    by (simp_all add: bare_identifier_def)
  from DecodeRuneInString_width_pos [OF ne] DecodeRuneInString_width_le [of t] dec
  have w0: "1 \<le> w0" "w0 \<le> int (length t)" by simp_all
  from letter have nq: "r0 \<noteq> 91" "r0 \<noteq> 39"
    by (auto simp: unicode_IsLetter_def split: if_splits)
  have n13: "\<And>st s w tk. Lexer_next (?mk st 13 s w tk) = Inr (32, ?mk st 14 s 1 tk)"
    by (simp add: Lexer_next_def slice_from_def len inp DecodeRuneInString_ascii byte_def)
  have n14: "\<And>st s w tk. Lexer_next (?mk st 14 s w tk) = Inr (r0, ?mk st (14 + w0) s w0 tk)"
    using ne by (simp add: Lexer_next_def slice_from_def len d14 dec)
  have pw: "\<And>st s w tk. Lexer_peekWord U (?mk st 13 s w tk) = Inr []"
    by (simp add: Lexer_peekWord_def slice_from_def len inp DecodeRuneInString_ascii byte_def
          unicode_IsSpace_def)
  have sk: "\<And>st s w tk. Lexer_skipWhiteSpaces U (?mk st 13 s w tk) = Inr (?mk st 14 14 w0 tk)"
    apply (simp add: Lexer_skipWhiteSpaces_def)
    apply (subst skipWhiteSpaces_loop.simps)
    apply (simp add: n13 unicode_IsSpace_def)
    apply (subst skipWhiteSpaces_loop.simps)
    apply (simp add: n14 nospace Lexer_backup_def Lexer_ignore_def)
    done
  have "drop (nat (14 + w0)) inp = drop (nat w0) (drop 14 inp)"
    using w0 by (simp add: nat_add_distrib add.commute)
  with rest d14 have r2: "identifier_runes U (drop (nat (14 + w0)) inp)" by simp
  have il: "\<And>st s tk. identifier_loop U (?mk st (14 + w0) s w0 tk)
              = Inr (?mk st (int (length inp)) s 0 tk)"
    using identifier_loop_to_end [of "?mk st (14 + w0) s w0 tk" U for st s tk] w0 r2
    by (simp add: len)
  have em: "\<And>st w. Lexer_emit TokenTable (?mk st (int (length inp)) 14 w None)
              = Inr (?mk st (int (length inp)) (int (length inp)) w (Some \<lparr>T = TokenTable, V = t\<rparr>))"
    by (simp add: Lexer_emit_def slice_def len d14)
  have tbl: "lexSqlFromTable U (?mk (Some LexSqlFromTable) 13 13 1 None)
              = Inr (Some LexSqlWhere, ?mk (Some LexSqlFromTable) (int (length inp))
                  (int (length inp)) 0 (Some \<lparr>T = TokenTable, V = t\<rparr>))"
    by (simp add: lexSqlFromTable_def Lexer_lexIdentifier_def pw sk n14 nq letter il em
          Lexer_backup_def)
  show ?thesis
    apply (subst NextToken.simps)
    apply (simp add: tbl)
    apply (subst NextToken.simps)
    apply simp
    done
qed

lemma end_step:
  "NextToken U \<lparr>input = inp, state = Some LexSqlWhere, pos = int (length inp),
        start = int (length inp), width = 0, tokens = None, doubleDelim = False, stack = []\<rparr> =
     Some (Inr (\<lparr>T = TokenEOF, V = ''''\<rparr>,
       \<lparr>input = inp, state = None, pos = int (length inp),
        start = int (length inp), width = 0, tokens = None, doubleDelim = False, stack = []\<rparr>))"
  by (simp add: NextToken.simps lexSqlWhere_def lexGroupBy_def lexSqlEndOfStatement_def
        cursor_defs skipWhiteSpaces_loop.simps)

text \<open>With a nil state, an empty stack and an empty channel every call returns
  end-of-input and changes nothing.\<close>

lemma NextToken_terminal:
  "state l = None \<Longrightarrow> stack l = [] \<Longrightarrow> tokens l = None \<Longrightarrow>
   NextToken U l = Some (Inr (\<lparr>T = TokenEOF, V = ''''\<rparr>, l))"
  by (subst NextToken.simps) simp

lemma NextTokens_terminal:
  "state l = None \<Longrightarrow> stack l = [] \<Longrightarrow> tokens l = None \<Longrightarrow>
   NextTokens U n l = Some (Inr (replicate n \<lparr>T = TokenEOF, V = ''''\<rparr>, l))"
  by (induction n) (simp_all add: NextToken_terminal)

text \<open>From the state after FROM: the table name, then end-of-input for ever.\<close>

lemma table_then_eof:
  assumes inp: "drop 13 inp = CHR '' '' # t" and bi: "bare_identifier U t"
  shows "\<exists>l5. NextTokens U (Suc n) \<lparr>input = inp, state = Some LexSqlFromTable, pos = 13,
           start = 13, width = 1, tokens = None, doubleDelim = False, stack = []\<rparr> =
         Some (Inr (\<lparr>T = TokenTable, V = t\<rparr> # replicate n \<lparr>T = TokenEOF, V = ''''\<rparr>, l5))"
proof (cases n)
  case 0
  then show ?thesis by (simp add: table_step [OF inp bi])
next
  case (Suc m)
  then show ?thesis
    by (simp add: table_step [OF inp bi] end_step NextTokens_terminal)
qed

section \<open>Facts about bracketed and quoted identifiers\<close>

text \<open>An ASCII byte after a string does not change how the first rune of the string
  decodes.\<close>

lemma DecodeRuneInString_append_ascii:
  assumes "s \<noteq> []" and "byte c < 0x80"
  shows "DecodeRuneInString (s @ c # rest) = DecodeRuneInString s"
proof -
  from assms(1) obtain c0 cs where s: "s = c0 # cs" by (cases s) auto
  consider "cs = []" | a where "cs = [a]" | a b where "cs = [a, b]"
    | a b d more where "cs = a # b # d # more"
    by (cases cs; cases "tl cs"; cases "tl (tl cs)") auto
  then show ?thesis
  proof cases
    case 1
    with s assms(2) show ?thesis
      by (simp add: DecodeRuneInString.simps Let_def)
  next
    case 2
    with s assms(2) show ?thesis
      by (simp add: DecodeRuneInString.simps Let_def)
  next
    case 3
    with s assms(2) show ?thesis
      by (simp add: DecodeRuneInString.simps Let_def)
  next
    case 4
    with s show ?thesis
      by (simp add: DecodeRuneInString.simps Let_def)
  qed
qed

lemma byte_eq_iff: "(byte x = byte y) = (x = y)"
  by (simp add: byte_def)

lemma delimiter_not_lax:
  "\<not> isLaxIdentifierRune U 93" "\<not> isLaxIdentifierRune U 39"
  by (simp_all add: isLaxIdentifierRune_def IDENTITY_LAX_CHARS_def unicode_IsLetter_def
        unicode_IsDigit_def runes_ascii runes_Nil byte_def)

text \<open>Over lax runes followed by an ASCII byte that is not one, the loop of the quoted
  forms stops right after that byte and hands it back.\<close>

lemma laxIdentifier_loop_to_delim:
  "0 \<le> pos l \<Longrightarrow> drop (nat (pos l)) (input l) = s @ c # rest \<Longrightarrow> lax_runes U s \<Longrightarrow>
   byte c < 0x80 \<Longrightarrow> \<not> isLaxIdentifierRune U (int (byte c)) \<Longrightarrow>
   laxIdentifier_loop U l =
     Inr (int (byte c), l\<lparr>width := 1, pos := pos l + int (length s) + 1\<rparr>)"
proof (induction U l arbitrary: s rule: laxIdentifier_loop.induct)
  case (1 U l)
  from "1.prems"(2) have "drop (nat (pos l)) (input l) \<noteq> []" by simp
  then have lt: "pos l < int (length (input l))" by simp
  show ?case
  proof (cases "s = []")
    case True
    with "1.prems" lt have "Lexer_next l = Inr (int (byte c), l\<lparr>width := 1, pos := pos l + 1\<rparr>)"
      by (simp add: Lexer_next_def slice_from_def DecodeRuneInString_ascii)
    with True "1.prems"(5) show ?thesis
      by (subst laxIdentifier_loop.simps) simp
  next
    case False
    obtain r w where d: "DecodeRuneInString s = (r, w)" by (cases "DecodeRuneInString s")
    from DecodeRuneInString_append_ascii [OF False "1.prems"(4), of rest] d
    have d2: "DecodeRuneInString (s @ c # rest) = (r, w)" by simp
    from DecodeRuneInString_width_pos [OF False] DecodeRuneInString_width_le [of s] d
    have w: "1 \<le> w" "w \<le> int (length s)" by simp_all
    let ?l1 = "l\<lparr>width := w, pos := pos l + w\<rparr>"
    from "1.prems" lt d2 have n: "Lexer_next l = Inr (r, ?l1)"
      by (simp add: Lexer_next_def slice_from_def)
    from "1.prems"(3) False d have lax: "isLaxIdentifierRune U r"
      and rest': "lax_runes U (drop (nat w) s)"
      by (subst (asm) lax_runes.simps, simp)+
    have "drop (nat (pos l + w)) (input l) = drop (nat w) (drop (nat (pos l)) (input l))"
      using w "1.prems"(1) by (simp add: nat_add_distrib add.commute)
    also have "\<dots> = drop (nat w) s @ c # rest"
      using w by (simp add: "1.prems"(2))
    finally have dr: "drop (nat (pos ?l1)) (input ?l1) = drop (nat w) s @ c # rest" by simp
    from w "1.prems"(1) have p1: "0 \<le> pos ?l1" by simp
    from "1.IH" [OF n refl lax p1 dr rest' "1.prems"(4,5)] n lax w show ?thesis
      by (subst laxIdentifier_loop.simps) (simp add: of_nat_diff)
  qed
qed

text \<open>\<^verbatim>\<open>lexIdentifier\<close> on an opening bracket or quote, a lax name, and an ASCII byte that
  ends the name: the name is emitted when the byte closes the opening delimiter, and
  the name with that byte is emitted as an error token otherwise.\<close>

lemma lexIdentifier_delimited:
  assumes nm: "lax_name U name" and c: "byte c < 0x80" "\<not> isLaxIdentifierRune U (int (byte c))"
    and opn: "opn = CHR 0x5B \<or> opn = CHR 0x27"
  shows "emitted (Lexer_lexIdentifier U typ nextFn (NewLexer (opn # name @ c # rest))) =
           Inr (Some (if (opn = CHR 0x5B \<and> c = CHR 0x5D) \<or> (opn = CHR 0x27 \<and> c = CHR 0x27)
                      then \<lparr>T = typ, V = name\<rparr> else \<lparr>T = TokenError, V = name @ [c]\<rparr>))
       \<and> map_sum id fst (Lexer_lexIdentifier U typ nextFn (NewLexer (opn # name @ c # rest))) =
           Inr (if (opn = CHR 0x5B \<and> c = CHR 0x5D) \<or> (opn = CHR 0x27 \<and> c = CHR 0x27)
                then nextFn else None)"
proof -
  define inp where "inp = opn # name @ c # rest"
  let ?mk = "\<lambda>p s w tk. \<lparr>input = inp, state = Some LexStatement, pos = p, start = s,
        width = w, tokens = tk, doubleDelim = False, stack = []\<rparr>"
  let ?n = "int (length name)"
  have d1: "drop (Suc 0) inp = name @ c # rest" by (simp add: inp_def)
  have len: "int (length inp) = 2 + ?n + int (length rest)" by (simp add: inp_def)
  from opn have bo: "byte opn < 0x80" "int (byte opn) = 91 \<or> int (byte opn) = 39"
    by (auto simp: byte_def)
  then have nsp: "\<not> unicode_IsSpace U (int (byte opn))"
    by (auto simp: unicode_IsSpace_def)
  obtain r0 w0 where dec: "DecodeRuneInString name = (r0, w0)"
    by (cases "DecodeRuneInString name")
  from nm dec have ne: "name \<noteq> []" and letter: "unicode_IsLetter U r0"
    and lax: "lax_runes U (drop (nat w0) name)"
    by (simp_all add: lax_name_def)
  from DecodeRuneInString_width_pos [OF ne] DecodeRuneInString_width_le [of name] dec
  have w0: "1 \<le> w0" "w0 \<le> ?n" by simp_all
  from DecodeRuneInString_append_ascii [OF ne c(1), of rest] dec
  have dec2: "DecodeRuneInString (name @ c # rest) = (r0, w0)" by simp
  have n0: "\<And>s w. Lexer_next (?mk 0 s w None) = Inr (int (byte opn), ?mk 1 s 1 None)"
    using bo by (simp add: Lexer_next_def slice_from_def inp_def DecodeRuneInString_ascii)
  have sk: "Lexer_skipWhiteSpaces U (NewLexer inp) = Inr (?mk 0 0 1 None)"
    apply (simp add: Lexer_skipWhiteSpaces_def NewLexer_def)
    apply (subst skipWhiteSpaces_loop.simps)
    apply (simp add: n0 nsp Lexer_backup_def Lexer_ignore_def)
    done
  have n1: "\<And>s w. Lexer_next (?mk 1 s w None) = Inr (r0, ?mk (1 + w0) s w0 None)"
    by (simp add: Lexer_next_def slice_from_def len d1 dec2)
  have "drop (nat (1 + w0)) inp = drop (nat w0) (drop (Suc 0) inp)"
    using w0 by (simp add: nat_add_distrib add.commute)
  also have "\<dots> = drop (nat w0) name @ c # rest"
    using w0 by (simp add: d1)
  finally have dr: "drop (nat (1 + w0)) inp = drop (nat w0) name @ c # rest" .
  have lp: "laxIdentifier_loop U (?mk (1 + w0) 1 w0 None) =
      Inr (int (byte c), ?mk (2 + ?n) 1 1 None)"
    using laxIdentifier_loop_to_delim [of "?mk (1 + w0) 1 w0 None" "drop (nat w0) name" c rest U]
      w0 dr lax c
    by (simp add: of_nat_diff)
  have sl_ok: "slice inp 1 (1 + ?n) = Inr name"
    by (simp add: slice_def len d1)
  have sl_err: "slice inp 1 (2 + ?n) = Inr (name @ [c])"
    by (simp add: slice_def len d1 nat_add_distrib)
  have nc: "\<And>s w tk. Lexer_next (?mk (1 + ?n) s w tk) = Inr (int (byte c), ?mk (2 + ?n) s 1 tk)"
  proof -
    fix s w tk
    have "drop (nat (1 + ?n)) inp = drop (length name) (drop (Suc 0) inp)"
      by (simp add: nat_add_distrib add.commute)
    then have "drop (nat (1 + ?n)) inp = c # rest" by (simp add: d1)
    with c(1) show "Lexer_next (?mk (1 + ?n) s w tk) = Inr (int (byte c), ?mk (2 + ?n) s 1 tk)"
      by (simp add: Lexer_next_def slice_from_def len DecodeRuneInString_ascii)
  qed
  have cl: "(int (byte opn) = 91 \<and> int (byte c) = 93) \<or> (int (byte opn) = 39 \<and> int (byte c) = 39)
      \<longleftrightarrow> (opn = CHR 0x5B \<and> c = CHR 0x5D) \<or> (opn = CHR 0x27 \<and> c = CHR 0x27)"
  proof -
    show ?thesis
      using byte_eq_iff [of opn "CHR 0x5B"] byte_eq_iff [of opn "CHR 0x27"]
        byte_eq_iff [of c "CHR 0x5D"] byte_eq_iff [of c "CHR 0x27"]
      by (simp add: byte_def)
  qed
  have res: "Lexer_lexIdentifier U typ nextFn (NewLexer inp) =
      (if (opn = CHR 0x5B \<and> c = CHR 0x5D) \<or> (opn = CHR 0x27 \<and> c = CHR 0x27)
       then Inr (nextFn, ?mk (2 + ?n) (2 + ?n) 1 (Some \<lparr>T = typ, V = name\<rparr>))
       else Inr (None, ?mk (2 + ?n) (2 + ?n) 1 (Some \<lparr>T = TokenError, V = name @ [c]\<rparr>)))"
    using bo(2) letter
    by (simp add: Lexer_lexIdentifier_def sk n0 n1 lp cl [symmetric] Lexer_ignore_def
          Lexer_backup_def Lexer_emit_def Lexer_errorToken_def sl_ok sl_err nc
          del: of_nat_add)
  show ?thesis
    unfolding inp_def [symmetric] by (simp add: res emitted_def)
qed


lemma first_name_lax: "lax_name U ''first name''"
  by (simp add: lax_name_def lax_runes.simps DecodeRuneInString_ascii isLaxIdentifierRune_def
        IDENTITY_LAX_CHARS_def unicode_IsLetter_def unicode_IsDigit_def runes_ascii runes_Nil
        byte_def)

section \<open>Claims\<close>

text \<open>
  C1. No transition sends two tokens: the claim holds of the design (the channel holds
  one token), and \<^verbatim>\<open>lexSqlWhereColumnExpr\<close> breaks it. On \<open>>=\<close> the transition emits
  \<^verbatim>\<open>TokenGE\<close> and then, with no \<^verbatim>\<open>else\<close>, \<^verbatim>\<open>TokenGT\<close>: the second send finds the channel
  full and never completes. The first six calls of \<^verbatim>\<open>NextToken\<close> on
  \<open>select * from t where a >= 5\<close> return their tokens; the seventh does not return a
  token.
\<close>

theorem where_ge_sends_twice:
  "tokens_of (NextTokens U 6 (NewLexer ''select * from t where a >= 5'')) =
     Some (Inr [\<lparr>T = TokenSelect, V = ''select''\<rparr>, \<lparr>T = TokenStar, V = ''*''\<rparr>,
                \<lparr>T = TokenFrom, V = ''from''\<rparr>, \<lparr>T = TokenTable, V = ''t''\<rparr>,
                \<lparr>T = TokenWhere, V = ''where''\<rparr>, \<lparr>T = TokenColumn, V = ''a''\<rparr>])
   \<and> tokens_of (NextTokens U 7 (NewLexer ''select * from t where a >= 5'')) =
     Some (Inl SendBlocked)"
  by (intro conjI; code_simp)

text \<open>
  C2. After an error token the scan is meant to be over (the comments of \<^verbatim>\<open>errorf\<close> and
  \<^verbatim>\<open>errorToken\<close> say that the nil state terminates it), but \<^verbatim>\<open>NextToken\<close> answers a nil
  state by popping the stack. On \<open>sx\<close> the first call returns an error token with the
  continuation "from keyword" still on the stack; the second call pops it, scans again
  and returns a second error token; only the third returns end-of-input.
\<close>

theorem error_then_resumes:
  "tokens_of (NextTokens U 3 (NewLexer ''sx'')) =
     Some (Inr [\<lparr>T = TokenError, V = ''''\<rparr>, \<lparr>T = TokenError, V = ''''\<rparr>,
                \<lparr>T = TokenEOF, V = ''''\<rparr>])"
  by code_simp

text \<open>
  C3. For every bare identifier \<open>table\<close>, the calls of \<^verbatim>\<open>NextToken\<close> on
  \<open>SELECT * FROM table\<close> return SELECT, STAR, FROM and the table name, in this order and
  with the text of the input, and every call after them returns end-of-input: the first
  \<open>5 + n\<close> calls return the four tokens followed by \<open>1 + n\<close> end-of-input tokens. The same
  holds with the keywords in lower case.
\<close>

theorem select_star_from_table:
  assumes "bare_identifier U table"
  shows "tokens_of (NextTokens U (5 + n) (NewLexer (''SELECT * FROM '' @ table))) =
     Some (Inr ([\<lparr>T = TokenSelect, V = ''SELECT''\<rparr>, \<lparr>T = TokenStar, V = ''*''\<rparr>,
                 \<lparr>T = TokenFrom, V = ''FROM''\<rparr>, \<lparr>T = TokenTable, V = table\<rparr>]
                @ replicate (1 + n) \<lparr>T = TokenEOF, V = ''''\<rparr>))
   \<and> tokens_of (NextTokens U (5 + n) (NewLexer (''select * from '' @ table))) =
     Some (Inr ([\<lparr>T = TokenSelect, V = ''select''\<rparr>, \<lparr>T = TokenStar, V = ''*''\<rparr>,
                 \<lparr>T = TokenFrom, V = ''from''\<rparr>, \<lparr>T = TokenTable, V = table\<rparr>]
                @ replicate (1 + n) \<lparr>T = TokenEOF, V = ''''\<rparr>))"
proof
  have e: "5 + n = Suc (Suc (Suc (Suc (Suc n))))" by simp
  define inp where "inp = ''SELECT * FROM '' @ table"
  have d: "drop 13 inp = CHR '' '' # table" by (simp add: inp_def)
  note s1 = select_step [of U table, folded inp_def]
  note s2 = star_step [of U table, folded inp_def]
  note s3 = from_step [of U table, folded inp_def]
  from table_then_eof [OF d assms, of "Suc n"] obtain l5 where
    rest: "NextTokens U (Suc (Suc n)) \<lparr>input = inp, state = Some LexSqlFromTable, pos = 13,
             start = 13, width = 1, tokens = None, doubleDelim = False, stack = []\<rparr> =
           Some (Inr (\<lparr>T = TokenTable, V = table\<rparr>
                      # replicate (Suc n) \<lparr>T = TokenEOF, V = ''''\<rparr>, l5))"
    by blast
  have "tokens_of (NextTokens U (5 + n) (NewLexer inp)) =
     Some (Inr ([\<lparr>T = TokenSelect, V = ''SELECT''\<rparr>, \<lparr>T = TokenStar, V = ''*''\<rparr>,
                 \<lparr>T = TokenFrom, V = ''FROM''\<rparr>, \<lparr>T = TokenTable, V = table\<rparr>]
                @ replicate (1 + n) \<lparr>T = TokenEOF, V = ''''\<rparr>))"
    unfolding e NextTokens.simps(2) [of U "Suc (Suc (Suc (Suc n)))"]
      NextTokens.simps(2) [of U "Suc (Suc (Suc n))"] NextTokens.simps(2) [of U "Suc (Suc n)"]
    by (simp add: tokens_of_def s1 s2 s3 rest del: NextTokens.simps)
  then show "tokens_of (NextTokens U (5 + n) (NewLexer (''SELECT * FROM '' @ table))) =
     Some (Inr ([\<lparr>T = TokenSelect, V = ''SELECT''\<rparr>, \<lparr>T = TokenStar, V = ''*''\<rparr>,
                 \<lparr>T = TokenFrom, V = ''FROM''\<rparr>, \<lparr>T = TokenTable, V = table\<rparr>]
                @ replicate (1 + n) \<lparr>T = TokenEOF, V = ''''\<rparr>))"
    by (simp only: inp_def)
next
  have e: "5 + n = Suc (Suc (Suc (Suc (Suc n))))" by simp
  define inp where "inp = ''select * from '' @ table"
  have d: "drop 13 inp = CHR '' '' # table" by (simp add: inp_def)
  note s1 = select_step_lower [of U table, folded inp_def]
  note s2 = star_step_lower [of U table, folded inp_def]
  note s3 = from_step_lower [of U table, folded inp_def]
  from table_then_eof [OF d assms, of "Suc n"] obtain l5 where
    rest: "NextTokens U (Suc (Suc n)) \<lparr>input = inp, state = Some LexSqlFromTable, pos = 13,
             start = 13, width = 1, tokens = None, doubleDelim = False, stack = []\<rparr> =
           Some (Inr (\<lparr>T = TokenTable, V = table\<rparr>
                      # replicate (Suc n) \<lparr>T = TokenEOF, V = ''''\<rparr>, l5))"
    by blast
  have "tokens_of (NextTokens U (5 + n) (NewLexer inp)) =
     Some (Inr ([\<lparr>T = TokenSelect, V = ''select''\<rparr>, \<lparr>T = TokenStar, V = ''*''\<rparr>,
                 \<lparr>T = TokenFrom, V = ''from''\<rparr>, \<lparr>T = TokenTable, V = table\<rparr>]
                @ replicate (1 + n) \<lparr>T = TokenEOF, V = ''''\<rparr>))"
    unfolding e NextTokens.simps(2) [of U "Suc (Suc (Suc (Suc n)))"]
      NextTokens.simps(2) [of U "Suc (Suc (Suc n))"] NextTokens.simps(2) [of U "Suc (Suc n)"]
    by (simp add: tokens_of_def s1 s2 s3 rest del: NextTokens.simps)
  then show "tokens_of (NextTokens U (5 + n) (NewLexer (''select * from '' @ table))) =
     Some (Inr ([\<lparr>T = TokenSelect, V = ''select''\<rparr>, \<lparr>T = TokenStar, V = ''*''\<rparr>,
                 \<lparr>T = TokenFrom, V = ''from''\<rparr>, \<lparr>T = TokenTable, V = table\<rparr>]
                @ replicate (1 + n) \<lparr>T = TokenEOF, V = ''''\<rparr>))"
    by (simp only: inp_def)
qed

theorem select_star_from_table_witness:
  "bare_identifier plain_golib ''users''
   \<and> tokens_of (NextTokens plain_golib (5 + 1) (NewLexer (''SELECT * FROM '' @ ''users''))) =
     Some (Inr ([\<lparr>T = TokenSelect, V = ''SELECT''\<rparr>, \<lparr>T = TokenStar, V = ''*''\<rparr>,
                 \<lparr>T = TokenFrom, V = ''FROM''\<rparr>, \<lparr>T = TokenTable, V = ''users''\<rparr>]
                @ replicate (1 + 1) \<lparr>T = TokenEOF, V = ''''\<rparr>))"
proof -
  have h: "bare_identifier plain_golib ''users''" by code_simp
  from select_star_from_table [OF h, of 1] have
    "tokens_of (NextTokens plain_golib (5 + 1) (NewLexer (''SELECT * FROM '' @ ''users''))) =
     Some (Inr ([\<lparr>T = TokenSelect, V = ''SELECT''\<rparr>, \<lparr>T = TokenStar, V = ''*''\<rparr>,
                 \<lparr>T = TokenFrom, V = ''FROM''\<rparr>, \<lparr>T = TokenTable, V = ''users''\<rparr>]
                @ replicate (1 + 1) \<lparr>T = TokenEOF, V = ''''\<rparr>))"
    by (rule conjunct1)
  with h show ?thesis by (rule conjI)
qed

text \<open>
  C4. The comparator transition \<^verbatim>\<open>lexSqlWhereColumnExpr\<close> emits one operator token for
  \<open>!=\<close>, \<open>=\<close>, \<open>>\<close>, \<open><=\<close>, \<open>IN\<close> and \<open>LIKE\<close>, and misses the claim three times: for \<open><\<close>
  it emits nothing at all (there is no \<^verbatim>\<open>TokenLT\<close> emit), for \<open>>=\<close> it sends twice and
  blocks, and for a \<open>!\<close> without \<open>=\<close> it logs and returns nil without an error token.
  In a whole statement the \<open><\<close> is dropped: the value follows the column.
\<close>

theorem comparator_tokens:
  "emitted (lexSqlWhereColumnExpr U (NewLexer ''< 5'')) = Inr None
   \<and> lexSqlWhereColumnExpr U (NewLexer ''>= 5'') = Inl SendBlocked
   \<and> emitted (lexSqlWhereColumnExpr U (NewLexer ''! 5'')) = Inr None
   \<and> emitted (lexSqlWhereColumnExpr U (NewLexer ''!= 5'')) = Inr (Some \<lparr>T = TokenNE, V = ''!=''\<rparr>)
   \<and> emitted (lexSqlWhereColumnExpr U (NewLexer ''= 5'')) = Inr (Some \<lparr>T = TokenEqual, V = ''=''\<rparr>)
   \<and> emitted (lexSqlWhereColumnExpr U (NewLexer ''> 5'')) = Inr (Some \<lparr>T = TokenGT, V = ''>''\<rparr>)
   \<and> emitted (lexSqlWhereColumnExpr U (NewLexer ''<= 5'')) = Inr (Some \<lparr>T = TokenLE, V = ''<=''\<rparr>)
   \<and> emitted (lexSqlWhereColumnExpr U (NewLexer ''IN (1)'')) = Inr (Some \<lparr>T = TokenIN, V = ''IN''\<rparr>)
   \<and> emitted (lexSqlWhereColumnExpr U (NewLexer ''LIKE x'')) =
       Inr (Some \<lparr>T = TokenLike, V = ''LIKE''\<rparr>)
   \<and> tokens_of (NextTokens U 8 (NewLexer ''select * from t where a < 5 '')) =
       Some (Inr [\<lparr>T = TokenSelect, V = ''select''\<rparr>, \<lparr>T = TokenStar, V = ''*''\<rparr>,
                  \<lparr>T = TokenFrom, V = ''from''\<rparr>, \<lparr>T = TokenTable, V = ''t''\<rparr>,
                  \<lparr>T = TokenWhere, V = ''where''\<rparr>, \<lparr>T = TokenColumn, V = ''a''\<rparr>,
                  \<lparr>T = TokenValue, V = ''5''\<rparr>, \<lparr>T = TokenEOF, V = ''''\<rparr>])"
  by (intro conjI; code_simp)

text \<open>
  C5. A quoted value that is never closed does not end in an error token: the loop of
  \<^verbatim>\<open>lexValue\<close> tests the rune against 0, not against \<^verbatim>\<open>eof\<close>, and reads \<^verbatim>\<open>eof\<close> for ever.
  For every \<open>body\<close> without a quote and without a NUL byte, \<^verbatim>\<open>lexValue\<close> on an opening
  quote (single or double) followed by \<open>body\<close> never returns.
\<close>

theorem unterminated_quote_never_returns:
  assumes "no_quote_no_nul body"
  shows "Lexer_lexValue U (NewLexer (CHR 0x27 # body)) = None
       \<and> Lexer_lexValue U (NewLexer (CHR 0x22 # body)) = None"
  using lexValue_open_quote [OF _ assms, of "CHR 0x27" U]
    lexValue_open_quote [OF _ assms, of "CHR 0x22" U]
  by simp

theorem unterminated_quote_never_returns_witness:
  "no_quote_no_nul ''abc''
   \<and> Lexer_lexValue plain_golib (NewLexer (CHR 0x27 # ''abc'')) = None
   \<and> Lexer_lexValue plain_golib (NewLexer (CHR 0x22 # ''abc'')) = None"
proof -
  have h: "no_quote_no_nul ''abc''" by (simp add: no_quote_no_nul_def byte_def)
  from h unterminated_quote_never_returns [OF h, of plain_golib] show ?thesis by (rule conjI)
qed

text \<open>
  C6. A statement that starts with anything but a comment or \<open>s\<close>/\<open>S\<close> is logged as
  "not found" and then falls through to the end of \<^verbatim>\<open>lexStatement\<close>, which emits a
  plain end-of-input token and returns nil; no error token is produced. This holds for
  every lexer within its input and with an empty channel, whatever rune \<open>r\<close> other than
  \<open>/\<close>, \<open>-\<close>, \<open>#\<close>, \<open>s\<close>, \<open>S\<close> follows the white space; \<open>insert into t\<close> is one such input.
\<close>

theorem unknown_statement_is_eof:
  assumes l: "0 \<le> pos l" "pos l \<le> int (length (input l))" "tokens l = None"
    and skip: "Lexer_skipWhiteSpaces U l = Inr l1"
    and peek: "Lexer_peek l1 = Inr (r, l2)"
    and other: "r \<noteq> 47" "r \<noteq> 45" "r \<noteq> 35" "r \<noteq> 115" "r \<noteq> 83"
  shows "emitted (lexStatement U l) = Inr (Some \<lparr>T = TokenEOF, V = ''''\<rparr>)
       \<and> map_sum id fst (lexStatement U l) = Inr None"
proof -
  from Lexer_skipWhiteSpaces_bounded [OF l(1,2), of U] skip l(3)
  have l1: "input l1 = input l" "tokens l1 = None" "start l1 = pos l1" "0 \<le> pos l1"
    "pos l1 \<le> int (length (input l1))"
    by auto
  from Lexer_peek_kept [OF peek l1(4,5)] l1
  have l2: "input l2 = input l" "tokens l2 = None" "start l2 = pos l2" "0 \<le> pos l2"
    "pos l2 \<le> int (length (input l2))"
    by (auto simp: kept_def)
  from Lexer_peek_total [OF l2(4)] obtain r3 l3 where p3: "Lexer_peek l2 = Inr (r3, l3)"
    by blast
  from Lexer_peek_kept [OF p3 l2(4,5)] l2
  have l3: "input l3 = input l" "tokens l3 = None" "start l3 = pos l3" "0 \<le> pos l3"
    "pos l3 \<le> int (length (input l3))"
    by (auto simp: kept_def)
  from l3 have "Lexer_emit TokenEOF l3 =
      Inr (l3\<lparr>tokens := Some \<lparr>T = TokenEOF, V = ''''\<rparr>, start := pos l3\<rparr>)"
    by (simp add: Lexer_emit_def slice_def)
  with skip peek other p3 l3 show ?thesis
    by (simp add: lexStatement_def emitted_def)
qed

theorem unknown_statement_is_eof_witness:
  "0 \<le> pos (NewLexer ''insert into t'')
   \<and> pos (NewLexer ''insert into t'') \<le> int (length (input (NewLexer ''insert into t'')))
   \<and> tokens (NewLexer ''insert into t'') = None
   \<and> Lexer_skipWhiteSpaces plain_golib (NewLexer ''insert into t'') =
       Inr \<lparr>input = ''insert into t'', state = Some LexStatement, pos = 0, start = 0,
            width = 1, tokens = None, doubleDelim = False, stack = []\<rparr>
   \<and> Lexer_peek \<lparr>input = ''insert into t'', state = Some LexStatement, pos = 0, start = 0,
            width = 1, tokens = None, doubleDelim = False, stack = []\<rparr> =
       Inr (105, \<lparr>input = ''insert into t'', state = Some LexStatement, pos = 0, start = 0,
            width = 1, tokens = None, doubleDelim = False, stack = []\<rparr>)
   \<and> emitted (lexStatement plain_golib (NewLexer ''insert into t'')) =
       Inr (Some \<lparr>T = TokenEOF, V = []\<rparr>)
   \<and> map_sum id fst (lexStatement plain_golib (NewLexer ''insert into t'')) = Inr None"
proof -
  let ?l1 = "\<lparr>input = ''insert into t'', state = Some LexStatement, pos = 0, start = 0,
            width = 1, tokens = None, doubleDelim = False, stack = []\<rparr>"
  have a: "0 \<le> pos (NewLexer ''insert into t'')" by (simp add: NewLexer_def)
  have b: "pos (NewLexer ''insert into t'') \<le> int (length (input (NewLexer ''insert into t'')))"
    by (simp add: NewLexer_def)
  have c: "tokens (NewLexer ''insert into t'') = None" by (simp add: NewLexer_def)
  have d: "Lexer_skipWhiteSpaces plain_golib (NewLexer ''insert into t'') = Inr ?l1"
    by code_simp
  have e: "Lexer_peek ?l1 = Inr (105, ?l1)" by code_simp
  have f: "(105::int) \<noteq> 47" "(105::int) \<noteq> 45" "(105::int) \<noteq> 35" "(105::int) \<noteq> 115"
    "(105::int) \<noteq> 83"
    by simp_all
  from unknown_statement_is_eof [OF a b c d e f] a b c d e show ?thesis by simp
qed

text \<open>
  C7. \<^verbatim>\<open>lexNumber\<close> on the six standalone inputs: \<open>123\<close> is an integer, \<open>123.45\<close> a
  float, \<open>0x1A2B\<close> an integer, \<open>-3e-3\<close> a float; \<open>0123\<close> and \<open>0x1.5\<close> give the error token
  "bad number syntax" with the text scanned so far, quoted by \<^verbatim>\<open>%q\<close>.
\<close>

theorem lexNumber_examples:
  "emitted (lexNumber U (NewLexer ''123'')) = Inr (Some \<lparr>T = TokenInteger, V = ''123''\<rparr>)
   \<and> emitted (lexNumber U (NewLexer ''123.45'')) = Inr (Some \<lparr>T = TokenFloat, V = ''123.45''\<rparr>)
   \<and> emitted (lexNumber U (NewLexer ''0x1A2B'')) = Inr (Some \<lparr>T = TokenInteger, V = ''0x1A2B''\<rparr>)
   \<and> emitted (lexNumber U (NewLexer ''-3e-3'')) = Inr (Some \<lparr>T = TokenFloat, V = ''-3e-3''\<rparr>)
   \<and> emitted (lexNumber U (NewLexer ''0123'')) =
       Inr (Some \<lparr>T = TokenError, V = ''bad number syntax: '' @ libQuote U ''0123''\<rparr>)
   \<and> emitted (lexNumber U (NewLexer ''0x1.5'')) =
       Inr (Some \<lparr>T = TokenError, V = ''bad number syntax: '' @ libQuote U ''0x1.''\<rparr>)"
  by (intro conjI; code_simp)

text \<open>
  C8, as amended. From any position that is not negative \<^verbatim>\<open>next\<close> returns, and one
  \<^verbatim>\<open>backup\<close> after it restores the position exactly. \<^verbatim>\<open>backup\<close> has no guard: it is a
  plain subtraction of the last width, so a second \<^verbatim>\<open>backup\<close> moves the position back
  once more by the width of the rune read, below the start of the buffer if need be.
  The counterexample is the input \<open>ab\<close>: read, step back, step back leaves the
  position at \<open>-1\<close>.
\<close>

theorem backup_after_next:
  assumes "0 \<le> pos l"
  shows "\<exists>r l1. Lexer_next l = Inr (r, l1) \<and> pos (Lexer_backup l1) = pos l
           \<and> pos (Lexer_backup (Lexer_backup l1)) = pos l - width l1"
  using Lexer_next_total [OF assms] by (auto simp: Lexer_backup_def)

theorem backup_after_next_witness:
  "0 \<le> pos (NewLexer ''ab'')
   \<and> (\<exists>r l1. Lexer_next (NewLexer ''ab'') = Inr (r, l1)
         \<and> pos (Lexer_backup l1) = pos (NewLexer ''ab'')
         \<and> pos (Lexer_backup (Lexer_backup l1)) = pos (NewLexer ''ab'') - width l1)"
proof -
  have h: "0 \<le> pos (NewLexer ''ab'')" by (simp add: NewLexer_def)
  from h backup_after_next [OF h] show ?thesis by (rule conjI)
qed

theorem double_backup_counterexample:
  "Lexer_next (NewLexer ''ab'') =
     Inr (97, \<lparr>input = ''ab'', state = Some LexStatement, pos = 1, start = 0, width = 1,
               tokens = None, doubleDelim = False, stack = []\<rparr>)
   \<and> pos (Lexer_backup (Lexer_backup
       \<lparr>input = ''ab'', state = Some LexStatement, pos = 1, start = 0, width = 1,
        tokens = None, doubleDelim = False, stack = []\<rparr>)) = - 1"
  by (intro conjI; code_simp)

text \<open>
  C9. \<^verbatim>\<open>lexIdentifier\<close> strips the delimiters of a bracketed or quoted name. For every
  name that begins with a letter and goes on with runes that \<^verbatim>\<open>isLaxIdentifierRune\<close>
  accepts (\<open>first name\<close> is one), every token type, next state and rest of the input:
  on \<open>[name]\<close> and on \<open>'name'\<close> (the quote is the byte 0x27, the brackets 0x5B and 0x5D)
  the call emits a token of the given type whose text is the name, without the
  delimiters, and returns the next state it was given; on \<open>[name'\<close> and on \<open>'name]\<close> the
  closing delimiter does not match the opening one, and the call ends in
  \<^verbatim>\<open>errorToken\<close>: it emits an error token, whose text is the name with the closing byte,
  and returns the nil state.
\<close>

theorem lexIdentifier_quoted:
  assumes "lax_name U name"
  shows "emitted (Lexer_lexIdentifier U typ nextFn (NewLexer (CHR 0x5B # name @ CHR 0x5D # rest))) =
           Inr (Some \<lparr>T = typ, V = name\<rparr>)
       \<and> map_sum id fst (Lexer_lexIdentifier U typ nextFn (NewLexer (CHR 0x5B # name @ CHR 0x5D # rest))) =
           Inr nextFn
       \<and> emitted (Lexer_lexIdentifier U typ nextFn (NewLexer (CHR 0x27 # name @ CHR 0x27 # rest))) =
           Inr (Some \<lparr>T = typ, V = name\<rparr>)
       \<and> map_sum id fst (Lexer_lexIdentifier U typ nextFn (NewLexer (CHR 0x27 # name @ CHR 0x27 # rest))) =
           Inr nextFn
       \<and> emitted (Lexer_lexIdentifier U typ nextFn (NewLexer (CHR 0x5B # name @ CHR 0x27 # rest))) =
           Inr (Some \<lparr>T = TokenError, V = name @ [CHR 0x27]\<rparr>)
       \<and> map_sum id fst (Lexer_lexIdentifier U typ nextFn (NewLexer (CHR 0x5B # name @ CHR 0x27 # rest))) =
           Inr None
       \<and> emitted (Lexer_lexIdentifier U typ nextFn (NewLexer (CHR 0x27 # name @ CHR 0x5D # rest))) =
           Inr (Some \<lparr>T = TokenError, V = name @ [CHR 0x5D]\<rparr>)
       \<and> map_sum id fst (Lexer_lexIdentifier U typ nextFn (NewLexer (CHR 0x27 # name @ CHR 0x5D # rest))) =
           Inr None"
proof -
  have b: "byte (CHR 0x5D) < 0x80" "byte (CHR 0x27) < 0x80"
    "int (byte (CHR 0x5D)) = 93" "int (byte (CHR 0x27)) = 39"
    by (simp_all add: byte_def)
  have n: "\<not> isLaxIdentifierRune U (int (byte (CHR 0x5D)))"
    "\<not> isLaxIdentifierRune U (int (byte (CHR 0x27)))"
    by (simp_all only: b delimiter_not_lax not_False_eq_True)
  from lexIdentifier_delimited [OF assms b(1) n(1), of "CHR 0x5B" "typ" nextFn rest]
    lexIdentifier_delimited [OF assms b(2) n(2), of "CHR 0x27" "typ" nextFn rest]
    lexIdentifier_delimited [OF assms b(2) n(2), of "CHR 0x5B" "typ" nextFn rest]
    lexIdentifier_delimited [OF assms b(1) n(1), of "CHR 0x27" "typ" nextFn rest]
  show ?thesis by simp
qed

theorem lexIdentifier_quoted_witness:
  "lax_name plain_golib ''first name''
   \<and> emitted (Lexer_lexIdentifier plain_golib TokenColumn None (NewLexer ''[first name]'')) =
       Inr (Some \<lparr>T = TokenColumn, V = ''first name''\<rparr>)
   \<and> emitted (Lexer_lexIdentifier plain_golib TokenColumn None
        (NewLexer (CHR 0x27 # ''first name'' @ [CHR 0x27]))) =
       Inr (Some \<lparr>T = TokenColumn, V = ''first name''\<rparr>)
   \<and> emitted (Lexer_lexIdentifier plain_golib TokenColumn None
        (NewLexer (''[first name'' @ [CHR 0x27]))) =
       Inr (Some \<lparr>T = TokenError, V = ''first name'' @ [CHR 0x27]\<rparr>)
   \<and> emitted (Lexer_lexIdentifier plain_golib TokenColumn None
        (NewLexer (CHR 0x27 # ''first name]''))) =
       Inr (Some \<lparr>T = TokenError, V = ''first name]''\<rparr>)"
  using lexIdentifier_quoted [OF first_name_lax, of plain_golib TokenColumn None "[]"]
    first_name_lax [of plain_golib]
  by simp

text \<open>
  C10. \<^verbatim>\<open>scanNumber\<close> slices \<^verbatim>\<open>l.input[l.pos:l.pos+2]\<close> right after the optional sign. For a
  lexer whose token start is not negative and not beyond its position, with \<open>l1\<close> the
  lexer after \<^verbatim>\<open>accept("+-")\<close>: when fewer than two bytes remain at the position of
  \<open>l1\<close> the slice is out of range and \<^verbatim>\<open>scanNumber\<close> panics; and \<^verbatim>\<open>scanNumber\<close> returns a
  classification exactly when at least two bytes remain.
\<close>

theorem scanNumber_needs_two_bytes:
  assumes wf: "0 \<le> start l" "start l \<le> pos l"
    and sign: "Lexer_accept ''+-'' l = Inr (hasSign, l1)"
  shows "(int (length (input l1)) - pos l1 < 2 \<longrightarrow> scanNumber U l = Inl SliceOutOfRange)
       \<and> ((\<exists>res. scanNumber U l = Inr res) \<longleftrightarrow> 2 \<le> int (length (input l1)) - pos l1)"
proof -
  from wf have p0: "0 \<le> pos l" by simp
  from Lexer_accept_total [OF p0, of "''+-''"] sign
  have m: "moved l l1" and adv: "hasSign \<longrightarrow> pos l < pos l1" by auto
  from m p0 have p1: "0 \<le> pos l1" by (simp add: moved_def)
  show ?thesis
  proof (cases "int (length (input l1)) - pos l1 < 2")
    case True
    with sign have "scanNumber U l = Inl SliceOutOfRange"
      by (simp add: scanNumber_def slice_def)
    with True show ?thesis by simp
  next
    case False
    with p1 obtain prefix where
      s: "slice (input l1) (pos l1) (pos l1 + 2) = Inr prefix"
      by (simp add: slice_def)
    from False m wf have st: "0 \<le> start l1" "start l1 < int (length (input l1))"
      by (simp_all add: moved_def)
    from False m wf adv have st1: "hasSign \<longrightarrow> start l1 + 1 < int (length (input l1))"
      by (auto simp: moved_def)
    from scanNumber_decimal_total [OF p1 st st1, of U]
      scanNumber_hex_total [OF p1, of U] sign s
    have "\<exists>res. scanNumber U l = Inr res"
      by (auto simp: scanNumber_def)
    with False show ?thesis by simp
  qed
qed

theorem scanNumber_needs_two_bytes_witness:
  "0 \<le> start (NewLexer ''+1'') \<and> start (NewLexer ''+1'') \<le> pos (NewLexer ''+1'')
   \<and> Lexer_accept ''+-'' (NewLexer ''+1'') =
       Inr (True, \<lparr>input = ''+1'', state = Some LexStatement, pos = 1, start = 0, width = 1,
                   tokens = None, doubleDelim = False, stack = []\<rparr>)
   \<and> scanNumber plain_golib (NewLexer ''+1'') = Inl SliceOutOfRange"
proof -
  let ?l1 = "\<lparr>input = ''+1'', state = Some LexStatement, pos = 1, start = 0, width = 1,
              tokens = None, doubleDelim = False, stack = []\<rparr>"
  have a: "0 \<le> start (NewLexer ''+1'')" by (simp add: NewLexer_def)
  have b: "start (NewLexer ''+1'') \<le> pos (NewLexer ''+1'')" by (simp add: NewLexer_def)
  have c: "Lexer_accept ''+-'' (NewLexer ''+1'') = Inr (True, ?l1)" by code_simp
  from scanNumber_needs_two_bytes [OF a b c, of plain_golib]
  have "scanNumber plain_golib (NewLexer ''+1'') = Inl SliceOutOfRange" by simp
  with a b c show ?thesis by simp
qed

end
